theory Spec2Isabelle
  imports Main
begin

section \<open>Class token lists\<close>

text \<open>
  An element's \<^verbatim>\<open>classList\<close> is an ordered set of tokens. \<^verbatim>\<open>contains\<close> is membership,
  \<^verbatim>\<open>add\<close> appends a token that is not yet there, \<^verbatim>\<open>remove\<close> deletes it.
\<close>

type_synonym classList = "string list"

definition addToken :: "string \<Rightarrow> classList \<Rightarrow> classList" where
  "addToken t cs = (if t \<in> set cs then cs else cs @ [t])"

definition removeToken :: "string \<Rightarrow> classList \<Rightarrow> classList" where
  "removeToken t cs = filter (\<lambda>x. x \<noteq> t) cs"

datatype jserror = SyntaxError | InvalidCharacterError | TypeError | HierarchyRequestError

section \<open>Panel toggler (colaps.js)\<close>

text \<open>
  One panel is the pair of elements the script looks up for a header:
  \<^verbatim>\<open>button.nextElementSibling\<close> and \<^verbatim>\<open>button.querySelector(".fa-angle-down")\<close>.
  Either lookup may yield \<^verbatim>\<open>null\<close>; reading \<^verbatim>\<open>classList\<close> of \<^verbatim>\<open>null\<close> raises a TypeError,
  and what the handler changed before the raise stays changed.
\<close>

record panel =
  pContent :: "classList option"
  pIcon :: "classList option"

definition iconRemove :: "panel \<Rightarrow> jserror option \<times> panel" where
  "iconRemove p =
     (case pIcon p of
        None \<Rightarrow> (Some TypeError, p)
      | Some ics \<Rightarrow> (None, p\<lparr>pIcon := Some (removeToken ''active'' ics)\<rparr>))"

definition iconAdd :: "panel \<Rightarrow> jserror option \<times> panel" where
  "iconAdd p =
     (case pIcon p of
        None \<Rightarrow> (Some TypeError, p)
      | Some ics \<Rightarrow> (None, p\<lparr>pIcon := Some (addToken ''active'' ics)\<rparr>))"

definition panelClick :: "panel \<Rightarrow> jserror option \<times> panel" where
  "panelClick p =
     (case pContent p of
        None \<Rightarrow> (Some TypeError, p)
      | Some cs \<Rightarrow>
          if ''giveContent'' \<in> set cs
          then iconRemove (p\<lparr>pContent := Some (removeToken ''giveContent'' cs)\<rparr>)
          else iconAdd (p\<lparr>pContent := Some (addToken ''giveContent'' cs)\<rparr>))"

text \<open>Each click is an event of its own: a raise in one does not stop the next.\<close>

fun panelClicks :: "nat \<Rightarrow> panel \<Rightarrow> panel" where
  "panelClicks 0 p = p"
| "panelClicks (Suc n) p = panelClicks n (snd (panelClick p))"

definition synced :: "panel \<Rightarrow> bool" where
  "synced p =
     (case (pContent p, pIcon p) of
        (Some cs, Some ics) \<Rightarrow> (''active'' \<in> set ics) = (''giveContent'' \<in> set cs)
      | _ \<Rightarrow> False)"

definition complete :: "panel \<Rightarrow> bool" where
  "complete p = (pContent p \<noteq> None \<and> pIcon p \<noteq> None)"

section \<open>Modal controller: data\<close>

text \<open>Values a promise of this module settles with.\<close>

datatype jsval = VUndefined | VBool bool | VError jserror

text \<open>
  \<^verbatim>\<open>Object.assign({ close: 'overlay', scrollLock: false }, options)\<close>: the caller's
  options, each possibly absent, over the defaults.
\<close>

record options =
  optClose :: "string option"
  optScrollLock :: "bool option"

record settings =
  closeMode :: string
  scrollLock :: bool

definition assignSettings :: "options \<Rightarrow> settings" where
  "assignSettings opts =
     \<lparr>closeMode = (case optClose opts of None \<Rightarrow> ''overlay'' | Some m \<Rightarrow> m),
      scrollLock = (case optScrollLock opts of None \<Rightarrow> False | Some b \<Rightarrow> b)\<rparr>"

text \<open>
  What the closures of one \<^verbatim>\<open>prepareModal\<close> call capture: its \<^verbatim>\<open>settings\<close> and the
  \<^verbatim>\<open>resolve\<close> function of the promise it returns (the promise's index in the store).
  \<^verbatim>\<open>showModal\<close> and \<^verbatim>\<open>closeModal\<close> of that call are the functions below applied to it.
\<close>

record ctx =
  cSettings :: settings
  cResolve :: nat

text \<open>
  The function literals of the source, by the place they are installed at, each with the
  variables it captures. Click handlers: \<^verbatim>\<open>closeModal\<close> itself (as \<^verbatim>\<open>modalElement.onclick\<close> for
  \<^verbatim>\<open>close: 'all'\<close> and as the close button's handler), the overlay handler of
  \<^verbatim>\<open>close: 'overlay'\<close>, and the two buttons of \<^verbatim>\<open>confirmModal\<close>, which also capture the
  \<^verbatim>\<open>resolve\<close>/\<^verbatim>\<open>reject\<close> pair of the promise \<^verbatim>\<open>confirmModal\<close> returns.
\<close>

datatype clickFn =
    ClickClose ctx
  | OverlayClick ctx
  | ConfirmYes ctx nat
  | ConfirmNo ctx nat

text \<open>
  Timer callbacks: \<^verbatim>\<open>close\<close> as passed to \<^verbatim>\<open>setTimeout\<close> by \<^verbatim>\<open>notif\<close>, and the anonymous
  function \<^verbatim>\<open>closeModal\<close> schedules after 400.
\<close>

datatype timerFn =
    TimerClose ctx
  | FallbackTimeout

text \<open>
  Promise reactions: \<^verbatim>\<open>.then(resolve)\<close> and \<^verbatim>\<open>.then(reject)\<close> of the two buttons, and
  \<^verbatim>\<open>.catch(function () { reject(); })\<close> of \<^verbatim>\<open>confirmModal\<close>, each with the promise it settles.
  A pending promise holds the reactions registered on it. The promises \<^verbatim>\<open>then\<close> and
  \<^verbatim>\<open>catch\<close> themselves return are dropped by the source and are not kept here.
\<close>

datatype reaction =
    ThenResolve nat
  | ThenReject nat
  | CatchReject nat

datatype pstate = Pending "reaction list" | Fulfilled jsval | Rejected jsval

text \<open>
  Detached element trees, as the module builds them with \<^verbatim>\<open>createElement\<close> and callers hand
  them in: tag, id, class list, the inline styles in the order they were assigned, the
  \<^verbatim>\<open>onclick\<close> property and the children.
\<close>

datatype node =
    Text string
  | Elem (tag: string) (ident: string) (classes: classList)
      (styles: "(string \<times> string) list") (onclick: "clickFn option") (kids: "node list")

text \<open>
  What \<^verbatim>\<open>instanceof Node\<close> holds for: an element or text node with its subtree, a document
  fragment with its children, an inclusive ancestor of the content container (the
  container itself, the dialog region, \<^verbatim>\<open>body\<close>, \<^verbatim>\<open>html\<close>), the document, an attribute node,
  a doctype. \<^verbatim>\<open>appendChild\<close> on the container, an element, raises HierarchyRequestError for
  the last four and appends otherwise, a fragment by its children.
\<close>

datatype domNode =
    Tree node
  | Fragment "node list"
  | Ancestor
  | DocumentNode
  | AttrNode
  | DoctypeNode

fun refused :: "domNode \<Rightarrow> bool" where
  "refused (Tree t) = False"
| "refused (Fragment ts) = False"
| "refused Ancestor = True"
| "refused DocumentNode = True"
| "refused AttrNode = True"
| "refused DoctypeNode = True"

fun brings :: "domNode \<Rightarrow> node list" where
  "brings (Tree t) = [t]"
| "brings (Fragment ts) = ts"
| "brings Ancestor = []"
| "brings DocumentNode = []"
| "brings AttrNode = []"
| "brings DoctypeNode = []"

definition appendInto :: "domNode \<Rightarrow> node list \<Rightarrow> jserror + node list" where
  "appendInto n ks = (if refused n then Inl HierarchyRequestError else Inr (ks @ brings n))"

text \<open>
  The content argument of \<^verbatim>\<open>show\<close>: a string, a node, or a value that is neither. The
  message argument of \<^verbatim>\<open>success\<close> and \<^verbatim>\<open>fail\<close>: one string or an array of strings.
\<close>

datatype content = CStr string | CNode domNode | COther

datatype msg = MStr string | MList "string list"

datatype logArg = LStr string | LMsg msg

datatype logLevel = LogInfo | LogError

text \<open>\<^verbatim>\<open>document.body.style.top\<close>: the empty string, or \<^verbatim>\<open>`-${pos}px`\<close>.\<close>

datatype cssTop = TopUnset | TopMinusPx nat

text \<open>
  The page as the two scripts see it. \<open>modalFound\<close> and \<open>contentFound\<close> say whether
  \<^verbatim>\<open>getElementById('modal')\<close> and \<^verbatim>\<open>modalElement.querySelector('.content')\<close> find an element;
  \<open>parseHTML\<close> is the browser's markup parser, which is not part of the repository and
  is left open. Of the dialog region: its class list, its \<^verbatim>\<open>onclick\<close> property, its
  \<^verbatim>\<open>transitionend\<close> listeners (all registered with \<^verbatim>\<open>once\<close>; each is the \<^verbatim>\<open>onTransitionEnd\<close> of
  one \<^verbatim>\<open>closeModal\<close> call, given by that call's context and promise), and the children of
  the content container. Then the pending timers with the time they fall due, the clock,
  the promise store and the queue of reactions ready to run, the viewport offset as
  \<^verbatim>\<open>window.scrollY\<close> and as \<^verbatim>\<open>document.documentElement.scrollTop\<close>, the body's class list and
  the two inline styles the lock manager writes, \<^verbatim>\<open>scrollControl.currentPos\<close>, and the
  console.
\<close>

record world =
  modalFound :: bool
  contentFound :: bool
  parseHTML :: "string \<Rightarrow> node list"
  mClasses :: classList
  mOnclick :: "clickFn option"
  mListeners :: "(ctx \<times> nat) list"
  mKids :: "node list"
  timers :: "(nat \<times> timerFn) list"
  now :: nat
  promises :: "pstate list"
  microtasks :: "(reaction \<times> jsval) list"
  scrollY :: nat
  docScrollTop :: nat
  bodyClasses :: classList
  bodyTop :: cssTop
  scrollBehavior :: string
  currentPos :: nat
  console :: "(logLevel \<times> logArg list) list"

section \<open>Promises and the microtask queue\<close>

text \<open>
  \<^verbatim>\<open>new Promise(executor)\<close> allocates a pending promise (the executor then runs at once, in
  the caller); \<^verbatim>\<open>Promise.resolve(v)\<close> allocates a fulfilled one. A promise is settled once:
  settling it again changes nothing. Settling hands the reactions registered on it that
  match the outcome (\<^verbatim>\<open>then\<close> for fulfilled, \<^verbatim>\<open>catch\<close> for rejected) to the microtask
  queue, with the value it was settled with; registering a reaction on a promise that is
  already settled queues it directly.
\<close>

definition newPromise :: "world \<Rightarrow> nat \<times> world" where
  "newPromise w = (length (promises w), w\<lparr>promises := promises w @ [Pending []]\<rparr>)"

definition promiseResolve :: "jsval \<Rightarrow> world \<Rightarrow> nat \<times> world" where
  "promiseResolve v w = (length (promises w), w\<lparr>promises := promises w @ [Fulfilled v]\<rparr>)"

fun reacts :: "pstate \<Rightarrow> reaction \<Rightarrow> bool" where
  "reacts (Fulfilled v) (ThenResolve q) = True"
| "reacts (Fulfilled v) (ThenReject q) = True"
| "reacts (Rejected v) (CatchReject q) = True"
| "reacts st r = False"

fun settledWith :: "pstate \<Rightarrow> jsval" where
  "settledWith (Fulfilled v) = v"
| "settledWith (Rejected v) = v"
| "settledWith (Pending rs) = VUndefined"

definition jobsFor :: "pstate \<Rightarrow> reaction list \<Rightarrow> (reaction \<times> jsval) list" where
  "jobsFor st rs = map (\<lambda>r. (r, settledWith st)) (filter (reacts st) rs)"

definition settle :: "nat \<Rightarrow> pstate \<Rightarrow> world \<Rightarrow> world" where
  "settle p st w =
     (if p < length (promises w)
      then (case promises w ! p of
              Pending rs \<Rightarrow>
                w\<lparr>promises := (promises w)[p := st],
                  microtasks := microtasks w @ jobsFor st rs\<rparr>
            | Fulfilled v \<Rightarrow> w
            | Rejected v \<Rightarrow> w)
      else w)"

definition resolveP :: "nat \<Rightarrow> jsval \<Rightarrow> world \<Rightarrow> world" where
  "resolveP p v w = settle p (Fulfilled v) w"

definition rejectP :: "nat \<Rightarrow> jsval \<Rightarrow> world \<Rightarrow> world" where
  "rejectP p v w = settle p (Rejected v) w"

definition subscribe :: "nat \<Rightarrow> reaction \<Rightarrow> world \<Rightarrow> world" where
  "subscribe p r w =
     (if p < length (promises w)
      then (case promises w ! p of
              Pending rs \<Rightarrow> w\<lparr>promises := (promises w)[p := Pending (rs @ [r])]\<rparr>
            | Fulfilled v \<Rightarrow> w\<lparr>microtasks := microtasks w @ jobsFor (Fulfilled v) [r]\<rparr>
            | Rejected v \<Rightarrow> w\<lparr>microtasks := microtasks w @ jobsFor (Rejected v) [r]\<rparr>)
      else w)"

fun runReaction :: "reaction \<Rightarrow> jsval \<Rightarrow> world \<Rightarrow> world" where
  "runReaction (ThenResolve q) v w = resolveP q v w"
| "runReaction (ThenReject q) v w = rejectP q v w"
| "runReaction (CatchReject q) v w = rejectP q VUndefined w"

text \<open>
  The browser runs queued reactions until the queue is empty. Each run takes one job off
  the queue and can add only reactions that were waiting on the promise it settles, so
  the number of waiting and queued reactions together falls; the termination proof is
  in the section on the microtask queue below.
\<close>

fun waiting :: "pstate \<Rightarrow> nat" where
  "waiting (Pending rs) = length rs"
| "waiting st = 0"

definition backlog :: "world \<Rightarrow> nat" where
  "backlog w = sum_list (map waiting (promises w)) + length (microtasks w)"

function drain :: "world \<Rightarrow> world" where
  "drain w =
     (case microtasks w of
        [] \<Rightarrow> w
      | job # jobs \<Rightarrow> drain (runReaction (fst job) (snd job) (w\<lparr>microtasks := jobs\<rparr>)))"
  by pat_completeness auto

section \<open>Page helpers\<close>

text \<open>\<^verbatim>\<open>str.split(' ')\<close>: cuts at every single space, keeping empty pieces.\<close>

fun splitOn :: "char \<Rightarrow> string \<Rightarrow> string list" where
  "splitOn c [] = [[]]"
| "splitOn c (x # xs) =
     (if x = c then [] # splitOn c xs
      else (case splitOn c xs of
              [] \<Rightarrow> [[x]]
            | y # ys \<Rightarrow> (x # y) # ys))"

text \<open>
  \<^verbatim>\<open>classList.add(t1, ..., tn)\<close> first validates every token, in order (an empty token
  raises SyntaxError, one with ASCII whitespace InvalidCharacterError), and only then
  appends those not yet present.
\<close>

definition asciiWhitespace :: "char \<Rightarrow> bool" where
  "asciiWhitespace ch = (ch \<in> set [CHR 0x09, CHR 0x0A, CHR 0x0C, CHR 0x0D, CHR 0x20])"

fun tokenError :: "string list \<Rightarrow> jserror option" where
  "tokenError [] = None"
| "tokenError (t # ts) =
     (if t = [] then Some SyntaxError
      else if list_ex asciiWhitespace t then Some InvalidCharacterError
      else tokenError ts)"

definition addTokens :: "string list \<Rightarrow> classList \<Rightarrow> classList" where
  "addTokens ts cs = foldl (\<lambda>acc t. addToken t acc) cs ts"

definition classListAdd :: "string list \<Rightarrow> classList \<Rightarrow> jserror + classList" where
  "classListAdd ts cs =
     (case tokenError ts of
        Some e \<Rightarrow> Inl e
      | None \<Rightarrow> Inr (addTokens ts cs))"

text \<open>\<^verbatim>\<open>Array.prototype.join\<close> on a list of strings.\<close>

fun join :: "string \<Rightarrow> string list \<Rightarrow> string" where
  "join sep [] = []"
| "join sep [x] = x"
| "join sep (x # y # ys) = x @ sep @ join sep (y # ys)"

text \<open>
  Assigning \<^verbatim>\<open>innerHTML\<close> replaces the children by what the browser's parser makes of
  the markup (nothing, for the empty string); assigning \<^verbatim>\<open>innerText\<close> replaces them by
  one text node.
\<close>

definition innerHTML :: "world \<Rightarrow> string \<Rightarrow> node list" where
  "innerHTML w s = (if s = [] then [] else parseHTML w s)"

definition innerText :: "string \<Rightarrow> node list" where
  "innerText s = (if s = [] then [] else [Text s])"

definition createElement :: "string \<Rightarrow> node" where
  "createElement t = Elem t [] [] [] None []"

fun setStyle :: "string \<Rightarrow> string \<Rightarrow> node \<Rightarrow> node" where
  "setStyle k v (Elem t i cs st oc ks) = Elem t i cs (st @ [(k, v)]) oc ks"
| "setStyle k v (Text s) = Text s"

fun setKids :: "node list \<Rightarrow> node \<Rightarrow> node" where
  "setKids ns (Elem t i cs st oc ks) = Elem t i cs st oc ns"
| "setKids ns (Text s) = Text s"

fun appendChild :: "node \<Rightarrow> node \<Rightarrow> node" where
  "appendChild n (Elem t i cs st oc ks) = Elem t i cs st oc (ks @ [n])"
| "appendChild n (Text s) = Text s"

fun setClassName :: "classList \<Rightarrow> node \<Rightarrow> node" where
  "setClassName c (Elem t i cs st oc ks) = Elem t i c st oc ks"
| "setClassName c (Text s) = Text s"

fun setOnclick :: "clickFn \<Rightarrow> node \<Rightarrow> node" where
  "setOnclick h (Elem t i cs st oc ks) = Elem t i cs st (Some h) ks"
| "setOnclick h (Text s) = Text s"

text \<open>
  \<^verbatim>\<open>querySelector('.close-btn')\<close> followed by the assignment of its \<^verbatim>\<open>onclick\<close>: the
  first element in document order that carries the class gets the handler; \<open>None\<close> when
  no element matches.
\<close>

fun bindFirst :: "string \<Rightarrow> clickFn \<Rightarrow> node \<Rightarrow> node option"
  and bindFirstIn :: "string \<Rightarrow> clickFn \<Rightarrow> node list \<Rightarrow> node list option" where
  "bindFirst c h (Text s) = None"
| "bindFirst c h (Elem t i cs st oc ks) =
     (if c \<in> set cs then Some (Elem t i cs st (Some h) ks)
      else (case bindFirstIn c h ks of
              None \<Rightarrow> None
            | Some ks' \<Rightarrow> Some (Elem t i cs st oc ks')))"
| "bindFirstIn c h [] = None"
| "bindFirstIn c h (n # ns) =
     (case bindFirst c h n of
        Some n' \<Rightarrow> Some (n' # ns)
      | None \<Rightarrow>
          (case bindFirstIn c h ns of
             None \<Rightarrow> None
           | Some ns' \<Rightarrow> Some (n # ns')))"

text \<open>
  A click on the element at a path below the content container (child indices, outermost
  first): the \<^verbatim>\<open>onclick\<close> handlers it meets while bubbling, innermost first, and the
  target's id. \<open>None\<close> when the path leads to no element.
\<close>

fun bubble :: "nat list \<Rightarrow> node list \<Rightarrow> (clickFn list \<times> string) option" where
  "bubble [] ks = None"
| "bubble (i # path) ks =
     (if i < length ks
      then (case ks ! i of
              Text s \<Rightarrow> None
            | Elem t idn cs st oc sub \<Rightarrow>
                (if path = [] then Some (case oc of None \<Rightarrow> [] | Some h \<Rightarrow> [h], idn)
                 else (case bubble path sub of
                         None \<Rightarrow> None
                       | Some (hs, tid) \<Rightarrow>
                           Some (hs @ (case oc of None \<Rightarrow> [] | Some h \<Rightarrow> [h]), tid))))
      else None)"

definition setTimeout :: "timerFn \<Rightarrow> nat \<Rightarrow> world \<Rightarrow> world" where
  "setTimeout f d w = w\<lparr>timers := timers w @ [(now w + d, f)]\<rparr>"

definition consoleLog :: "logArg list \<Rightarrow> world \<Rightarrow> world" where
  "consoleLog args w = w\<lparr>console := console w @ [(LogInfo, args)]\<rparr>"

definition consoleError :: "logArg list \<Rightarrow> world \<Rightarrow> world" where
  "consoleError args w = w\<lparr>console := console w @ [(LogError, args)]\<rparr>"

section \<open>Scroll lock manager\<close>

text \<open>
  \<^verbatim>\<open>window.scrollTo(0, y)\<close> moves the viewport: both \<^verbatim>\<open>window.scrollY\<close> and
  \<^verbatim>\<open>document.documentElement.scrollTop\<close> read \<open>y\<close> afterwards.
\<close>

definition lock :: "world \<Rightarrow> world" where
  "lock w =
     (let pos = (if scrollY w \<noteq> 0 then scrollY w else docScrollTop w)
      in w\<lparr>currentPos := pos,
           bodyClasses := addToken ''locked'' (bodyClasses w),
           bodyTop := TopMinusPx pos,
           scrollBehavior := ''auto''\<rparr>)"

definition unlock :: "world \<Rightarrow> world" where
  "unlock w =
     w\<lparr>bodyClasses := removeToken ''locked'' (bodyClasses w),
       bodyTop := TopUnset,
       scrollBehavior := [],
       scrollY := currentPos w,
       docScrollTop := currentPos w\<rparr>"

section \<open>Core engine\<close>

text \<open>
  \<^verbatim>\<open>closeModal\<close> of the \<^verbatim>\<open>prepareModal\<close> call with context \<open>c\<close>. It returns a new promise.
  When the region is not marked \<^verbatim>\<open>active\<close> the promise is resolved at once; otherwise the
  call registers its \<^verbatim>\<open>onTransitionEnd\<close> for the next \<^verbatim>\<open>transitionend\<close> event, removes the
  class and schedules the fallback timer.
\<close>

definition closeModal :: "ctx \<Rightarrow> world \<Rightarrow> nat \<times> world" where
  "closeModal c w =
     (let (p, w1) = newPromise w
      in if ''active'' \<notin> set (mClasses w1) then (p, resolveP p VUndefined w1)
         else
           (let w2 = w1\<lparr>mListeners := mListeners w1 @ [(c, p)]\<rparr>;
                w3 = w2\<lparr>mClasses := removeToken ''active'' (mClasses w2)\<rparr>
            in (p, setTimeout FallbackTimeout 400 w3)))"

text \<open>\<^verbatim>\<open>onTransitionEnd\<close> of the \<^verbatim>\<open>closeModal\<close> call whose promise is \<open>p\<close>.\<close>

definition onTransitionEnd :: "ctx \<times> nat \<Rightarrow> world \<Rightarrow> world" where
  "onTransitionEnd l w =
     (let c = fst l; p = snd l;
          w1 = (if scrollLock (cSettings c) then unlock w else w);
          w2 = resolveP p VUndefined w1
      in resolveP (cResolve c) VUndefined w2)"

text \<open>The body of the fallback timer tests the class and does nothing in either case.\<close>

fun runTimer :: "timerFn \<Rightarrow> world \<Rightarrow> world" where
  "runTimer (TimerClose c) w = snd (closeModal c w)"
| "runTimer FallbackTimeout w = (if ''active'' \<notin> set (mClasses w) then w else w)"

text \<open>
  \<^verbatim>\<open>showModal\<close> of the call with context \<open>c\<close>. Without a content container its first
  statement raises a TypeError. Otherwise the container is cleared, filled from a string
  or a node and left empty for anything else; a node the container refuses makes
  \<^verbatim>\<open>appendChild\<close> raise, with the container already cleared and nothing after it done.
  Then the region is marked \<^verbatim>\<open>active\<close>, the first \<^verbatim>\<open>.close-btn\<close> element of the content gets
  \<^verbatim>\<open>closeModal\<close> as its click handler, and scroll is locked when the settings ask for it.
\<close>

definition fillContent :: "content \<Rightarrow> world \<Rightarrow> jserror option \<times> world" where
  "fillContent cont w =
     (case cont of
        CStr s \<Rightarrow> (None, w\<lparr>mKids := innerHTML w s\<rparr>)
      | CNode n \<Rightarrow>
          (case appendInto n (mKids w) of
             Inl e \<Rightarrow> (Some e, w)
           | Inr ks \<Rightarrow> (None, w\<lparr>mKids := ks\<rparr>))
      | COther \<Rightarrow> (None, w))"

definition showModal :: "ctx \<Rightarrow> content \<Rightarrow> world \<Rightarrow> jserror option \<times> world" where
  "showModal c cont w =
     (if \<not> contentFound w then (Some TypeError, w)
      else
        (case fillContent cont (w\<lparr>mKids := []\<rparr>) of
           (Some e, w2) \<Rightarrow> (Some e, w2)
         | (None, w2) \<Rightarrow>
             (let w3 = w2\<lparr>mClasses := addToken ''active'' (mClasses w2)\<rparr>;
                  w4 = (case bindFirstIn ''close-btn'' (ClickClose c) (mKids w3) of
                          None \<Rightarrow> w3
                        | Some ks \<Rightarrow> w3\<lparr>mKids := ks\<rparr>);
                  w5 = (if scrollLock (cSettings c) then lock w4 else w4)
              in (None, w5))))"

text \<open>
  A setup function is called with \<^verbatim>\<open>showModal\<close> and \<^verbatim>\<open>closeModal\<close> of the call; here it is
  given the context the two belong to. It may raise.
\<close>

type_synonym setupFn = "ctx \<Rightarrow> world \<Rightarrow> jserror option \<times> world"

text \<open>
  \<^verbatim>\<open>modalElement.className = ''\<close> and, for a class name that is neither absent nor empty,
  \<^verbatim>\<open>classList.add(...className.split(' '))\<close>; then the choice of \<^verbatim>\<open>modalElement.onclick\<close> by
  \<^verbatim>\<open>settings.close\<close>.
\<close>

definition resetClasses :: "string option \<Rightarrow> world \<Rightarrow> jserror option \<times> world" where
  "resetClasses className w =
     (let w1 = w\<lparr>mClasses := []\<rparr>
      in case className of
           None \<Rightarrow> (None, w1)
         | Some cn \<Rightarrow>
             if cn = [] then (None, w1)
             else (case classListAdd (splitOn CHR '' '' cn) (mClasses w1) of
                     Inl e \<Rightarrow> (Some e, w1)
                   | Inr cs \<Rightarrow> (None, w1\<lparr>mClasses := cs\<rparr>)))"

definition bindClose :: "ctx \<Rightarrow> world \<Rightarrow> world" where
  "bindClose c w =
     (let w1 = w\<lparr>mOnclick := None\<rparr>
      in if closeMode (cSettings c) = ''all'' then w1\<lparr>mOnclick := Some (ClickClose c)\<rparr>
         else if closeMode (cSettings c) = ''overlay'' then w1\<lparr>mOnclick := Some (OverlayClick c)\<rparr>
         else w1)"

text \<open>
  The executor of the promise \<^verbatim>\<open>prepareModal\<close> returns. A raise inside it rejects the
  promise with the error and leaves what was done before it.
\<close>

definition executor :: "string option \<Rightarrow> setupFn option \<Rightarrow> ctx \<Rightarrow> world \<Rightarrow> jserror option \<times> world" where
  "executor className setupFunc c w =
     (case resetClasses className w of
        (Some e, w1) \<Rightarrow> (Some e, w1)
      | (None, w1) \<Rightarrow>
          (let w2 = bindClose c w1
           in case setupFunc of
                None \<Rightarrow> (None, w2)
              | Some f \<Rightarrow> f c w2))"

definition prepareModal :: "string option \<Rightarrow> setupFn option \<Rightarrow> options \<Rightarrow> world \<Rightarrow> nat \<times> world" where
  "prepareModal className setupFunc opts w =
     (let st = assignSettings opts;
          (p, w0) = newPromise w;
          c = \<lparr>cSettings = st, cResolve = p\<rparr>
      in case executor className setupFunc c w0 of
           (None, w1) \<Rightarrow> (p, w1)
         | (Some e, w1) \<Rightarrow> (p, rejectP p (VError e) w1))"

section \<open>Public helpers\<close>

text \<open>\<^verbatim>\<open>'notification ' + className\<close>, where an omitted class name reads \<^verbatim>\<open>undefined\<close>.\<close>

definition nameText :: "string option \<Rightarrow> string" where
  "nameText className = (case className of None \<Rightarrow> ''undefined'' | Some s \<Rightarrow> s)"

definition notif :: "content \<Rightarrow> string option \<Rightarrow> nat option \<Rightarrow> world \<Rightarrow> nat \<times> world" where
  "notif cont className duration w =
     (let time = (case duration of None \<Rightarrow> 5000 | Some d \<Rightarrow> if d = 0 then 5000 else d)
      in prepareModal (Some (''notification '' @ nameText className))
           (Some (\<lambda>c w'.
              case showModal c cont w' of
                (None, w1) \<Rightarrow> (None, setTimeout (TimerClose c) time w1)
              | (Some e, w1) \<Rightarrow> (Some e, w1)))
           \<lparr>optClose = Some ''all'', optScrollLock = None\<rparr> w)"

definition finalMsg :: "msg \<Rightarrow> string" where
  "finalMsg m = (case m of MList xs \<Rightarrow> join ''<br/>'' xs | MStr s \<Rightarrow> s)"

definition msgIcon :: "world \<Rightarrow> bool \<Rightarrow> node" where
  "msgIcon w isFailed =
     setStyle ''marginBottom'' ''15px''
      (setStyle ''color'' (if isFailed then ''#dc3545'' else ''#28a745'')
        (setStyle ''fontSize'' ''3.5rem''
          (setKids
            (innerHTML w
              (if isFailed then ''<i class='' @ [CHR 0x22] @ ''fas fa-times'' @ [CHR 0x22] @ ''></i>''
               else ''<i class='' @ [CHR 0x22] @ ''fas fa-check-circle'' @ [CHR 0x22] @ ''></i>''))
            (createElement ''div''))))"

definition msgText :: "world \<Rightarrow> msg \<Rightarrow> node" where
  "msgText w m =
     setStyle ''color'' ''#333''
      (setStyle ''fontWeight'' ''bold''
        (setStyle ''fontSize'' ''1.1rem''
          (setKids (innerHTML w (finalMsg m)) (createElement ''p''))))"

definition msgWrapper :: "world \<Rightarrow> msg \<Rightarrow> bool \<Rightarrow> node" where
  "msgWrapper w m isFailed =
     setStyle ''padding'' ''10px''
      (setStyle ''textAlign'' ''center''
        (appendChild (msgIcon w isFailed)
          (appendChild (msgText w m) (createElement ''div''))))"

definition successFail :: "msg \<Rightarrow> nat option \<Rightarrow> bool \<Rightarrow> world \<Rightarrow> nat \<times> world" where
  "successFail m duration isFailed w =
     notif (CNode (Tree (msgWrapper w m isFailed)))
       (Some (if isFailed then ''error'' else ''success'')) duration w"

definition success :: "msg \<Rightarrow> nat option \<Rightarrow> world \<Rightarrow> nat \<times> world" where
  "success m duration w = successFail m duration False w"

definition fail :: "msg \<Rightarrow> nat option \<Rightarrow> world \<Rightarrow> nat \<times> world" where
  "fail m duration w = successFail m duration True w"

text \<open>The two button labels, as the UTF-8 bytes of the source's literals.\<close>

definition yesLabel :: string where
  "yesLabel = [CHR 0xD8, CHR 0xA8, CHR 0xD9, CHR 0x84, CHR 0xD9, CHR 0x87]"

definition noLabel :: string where
  "noLabel = [CHR 0xD8, CHR 0xAE, CHR 0xDB, CHR 0x8C, CHR 0xD8, CHR 0xB1]"

definition confirmBody :: "string \<Rightarrow> ctx \<Rightarrow> nat \<Rightarrow> node" where
  "confirmBody txt c outer =
     (let message = setStyle ''marginBottom'' ''20px''
                      (setKids (innerText txt) (createElement ''h4''));
          btnYes = setOnclick (ConfirmYes c outer)
                     (setStyle ''margin'' ''0 5px''
                       (setClassName [''btn'', ''btn-success'']
                         (setKids (innerText yesLabel) (createElement ''button''))));
          btnNo = setOnclick (ConfirmNo c outer)
                    (setStyle ''margin'' ''0 5px''
                      (setClassName [''btn'', ''btn-danger'']
                        (setKids (innerText noLabel) (createElement ''button''))));
          btnContainer = setStyle ''textAlign'' ''center''
                           (appendChild btnNo (appendChild btnYes (createElement ''div'')))
      in appendChild btnContainer (appendChild message (createElement ''div'')))"

definition confirmModal :: "string \<Rightarrow> world \<Rightarrow> nat \<times> world" where
  "confirmModal txt w =
     (let (outer, w0) = newPromise w;
          (p, w1) = prepareModal (Some ''choice'')
                      (Some (\<lambda>c w'. showModal c (CNode (Tree (confirmBody txt c outer))) w'))
                      \<lparr>optClose = None, optScrollLock = None\<rparr> w0
      in (outer, subscribe p (CatchReject outer) w1))"

definition spinnerMarkup :: string where
  "spinnerMarkup =
     [CHR 0x0A] @ ''                <div class='' @ [CHR 0x22] @ ''loader'' @ [CHR 0x22] @ '' style='' @ [CHR 0x22]
     @ ''display:inline-block; border: 4px solid #f3f3f3; border-top: 4px solid #3498db; ''
     @ ''border-radius: 50%; width: 40px; height: 40px; animation: spin 1s linear infinite;''
     @ [CHR 0x22] @ ''></div>'' @ [CHR 0x0A]
     @ ''                <p style='' @ [CHR 0x22] @ ''margin-top:10px; color:#555;'' @ [CHR 0x22] @ ''>''
     @ [CHR 0xD9, CHR 0x84, CHR 0xD8, CHR 0xB7, CHR 0xD9, CHR 0x81, CHR 0xD8, CHR 0xA7] @ '' ''
     @ [CHR 0xD8, CHR 0xB5, CHR 0xD8, CHR 0xA8, CHR 0xD8, CHR 0xB1] @ '' ''
     @ [CHR 0xDA, CHR 0xA9, CHR 0xD9, CHR 0x86, CHR 0xDB, CHR 0x8C, CHR 0xD8, CHR 0xAF]
     @ ''...</p>'' @ [CHR 0x0A]
     @ ''                <style>@keyframes spin { 0% { transform: rotate(0deg); } ''
     @ ''100% { transform: rotate(360deg); } }</style>'' @ [CHR 0x0A] @ ''            ''"

text \<open>
  A caller's spinner callback receives the \<^verbatim>\<open>close\<close> function of the dialog; it is
  given the closure context that function belongs to, or \<open>None\<close> when it is called
  without an argument.
\<close>

type_synonym callback = "ctx option \<Rightarrow> world \<Rightarrow> jserror option \<times> world"

definition spinner :: "callback option \<Rightarrow> world \<Rightarrow> nat \<times> world" where
  "spinner cb w =
     prepareModal (Some ''spinner'')
       (Some (\<lambda>c w'.
          (let container = setKids (innerHTML w' spinnerMarkup)
                             (setStyle ''textAlign'' ''center'' (createElement ''div''))
           in case showModal c (CNode (Tree container)) w' of
                (Some e, w1) \<Rightarrow> (Some e, w1)
              | (None, w1) \<Rightarrow>
                  (case cb of
                     None \<Rightarrow> (None, w1)
                   | Some f \<Rightarrow> f (Some c) w1))))
       \<lparr>optClose = Some ''locked'', optScrollLock = None\<rparr> w"

section \<open>Events\<close>

fun runClick :: "clickFn \<Rightarrow> bool \<Rightarrow> string \<Rightarrow> world \<Rightarrow> world" where
  "runClick (ClickClose c) onModal tid w = snd (closeModal c w)"
| "runClick (OverlayClick c) onModal tid w =
     (if onModal \<or> tid = ''closeModal'' then snd (closeModal c w) else w)"
| "runClick (ConfirmYes c outer) onModal tid w =
     (let (p, w1) = closeModal c w in subscribe p (ThenResolve outer) w1)"
| "runClick (ConfirmNo c outer) onModal tid w =
     (let (p, w1) = closeModal c w in subscribe p (ThenReject outer) w1)"

text \<open>The index of the timer that is due first (the earliest registered among equals).\<close>

fun nextTimer :: "(nat \<times> timerFn) list \<Rightarrow> nat option" where
  "nextTimer [] = None"
| "nextTimer (t # ts) =
     (case nextTimer ts of
        None \<Rightarrow> Some 0
      | Some i \<Rightarrow> if fst (ts ! i) < fst t then Some (Suc i) else Some 0)"

text \<open>
  What the page can deliver: a click on the overlay itself, a click on an element below
  the content container (first child index and the rest of the path), the end of a CSS
  transition on the dialog region, and the next timer falling due. Microtasks run to
  completion after every callback.
\<close>

datatype event = ClickOverlay | ClickInside nat "nat list" | TransitionEnd | Tick

definition modalClick :: "bool \<Rightarrow> string \<Rightarrow> world \<Rightarrow> world" where
  "modalClick onModal tid w =
     (case mOnclick w of
        None \<Rightarrow> w
      | Some h \<Rightarrow> drain (runClick h onModal tid w))"

fun fire :: "event \<Rightarrow> world \<Rightarrow> world" where
  "fire ClickOverlay w = modalClick True ''modal'' w"
| "fire (ClickInside i path) w =
     (case bubble (i # path) (mKids w) of
        None \<Rightarrow> w
      | Some (hs, tid) \<Rightarrow>
          modalClick False tid (foldl (\<lambda>a h. drain (runClick h False tid a)) w hs))"
| "fire TransitionEnd w =
     foldl (\<lambda>a l. drain (onTransitionEnd l a)) (w\<lparr>mListeners := []\<rparr>) (mListeners w)"
| "fire Tick w =
     (case nextTimer (timers w) of
        None \<Rightarrow> w
      | Some i \<Rightarrow>
          drain (runTimer (snd (timers w ! i))
                   (w\<lparr>timers := take i (timers w) @ drop (Suc i) (timers w),
                      now := max (now w) (fst (timers w ! i))\<rparr>)))"

fun run :: "event list \<Rightarrow> world \<Rightarrow> world" where
  "run [] w = w"
| "run (e # es) w = run es (fire e w)"

section \<open>Initialisation and the fallback object\<close>

datatype mode = Fallback | Live

definition init :: "world \<Rightarrow> mode \<times> world" where
  "init w =
     (if \<not> modalFound w
      then (Fallback,
            consoleError [LStr (''ERROR: <div id='' @ [CHR 0x22] @ ''modal'' @ [CHR 0x22]
                                 @ ''> not found in Layout.'')] w)
      else (Live, consoleLog [LStr ''Modal Module initialized.''] w))"

text \<open>What a call of the public surface hands back to its caller.\<close>

datatype ret = RetUndefined | RetPromise nat

datatype outcome = Returns ret | Throws jserror

definition fb_success :: "msg \<Rightarrow> world \<Rightarrow> outcome \<times> world" where
  "fb_success m w =
     (let (p, w1) = promiseResolve VUndefined (consoleLog [LStr ''Success:'', LMsg m] w)
      in (Returns (RetPromise p), w1))"

definition fb_fail :: "msg \<Rightarrow> world \<Rightarrow> outcome \<times> world" where
  "fb_fail m w =
     (let (p, w1) = promiseResolve VUndefined (consoleError [LStr ''Fail:'', LMsg m] w)
      in (Returns (RetPromise p), w1))"

definition fb_spinner :: "callback option \<Rightarrow> world \<Rightarrow> outcome \<times> world" where
  "fb_spinner func w =
     (case func of
        None \<Rightarrow> (Returns RetUndefined, w)
      | Some f \<Rightarrow>
          (case f None w of
             (Some e, w1) \<Rightarrow> (Throws e, w1)
           | (None, w1) \<Rightarrow> (Returns RetUndefined, w1)))"

definition fb_confirm :: "world \<Rightarrow> outcome \<times> world" where
  "fb_confirm w = (let (p, w1) = promiseResolve (VBool True) w in (Returns (RetPromise p), w1))"

definition fb_notif :: "world \<Rightarrow> outcome \<times> world" where
  "fb_notif w = (let (p, w1) = promiseResolve VUndefined w in (Returns (RetPromise p), w1))"

definition fb_custom :: "world \<Rightarrow> outcome \<times> world" where
  "fb_custom w = (let (p, w1) = promiseResolve VUndefined w in (Returns (RetPromise p), w1))"

text \<open>\<^verbatim>\<open>window.callModal\<close>: the object \<^verbatim>\<open>init\<close> installed, by operation.\<close>

definition live :: "nat \<times> world \<Rightarrow> outcome \<times> world" where
  "live r = (Returns (RetPromise (fst r)), snd r)"

definition callModal_success :: "mode \<Rightarrow> msg \<Rightarrow> nat option \<Rightarrow> world \<Rightarrow> outcome \<times> world" where
  "callModal_success md m duration w =
     (case md of Fallback \<Rightarrow> fb_success m w | Live \<Rightarrow> live (success m duration w))"

definition callModal_fail :: "mode \<Rightarrow> msg \<Rightarrow> nat option \<Rightarrow> world \<Rightarrow> outcome \<times> world" where
  "callModal_fail md m duration w =
     (case md of Fallback \<Rightarrow> fb_fail m w | Live \<Rightarrow> live (fail m duration w))"

definition callModal_spinner :: "mode \<Rightarrow> callback option \<Rightarrow> world \<Rightarrow> outcome \<times> world" where
  "callModal_spinner md cb w =
     (case md of Fallback \<Rightarrow> fb_spinner cb w | Live \<Rightarrow> live (spinner cb w))"

definition callModal_confirm :: "mode \<Rightarrow> string \<Rightarrow> world \<Rightarrow> outcome \<times> world" where
  "callModal_confirm md txt w =
     (case md of Fallback \<Rightarrow> fb_confirm w | Live \<Rightarrow> live (confirmModal txt w))"

definition callModal_notif ::
  "mode \<Rightarrow> content \<Rightarrow> string option \<Rightarrow> nat option \<Rightarrow> world \<Rightarrow> outcome \<times> world" where
  "callModal_notif md cont className duration w =
     (case md of Fallback \<Rightarrow> fb_notif w | Live \<Rightarrow> live (notif cont className duration w))"

definition callModal_custom ::
  "mode \<Rightarrow> string option \<Rightarrow> setupFn option \<Rightarrow> options \<Rightarrow> world \<Rightarrow> outcome \<times> world" where
  "callModal_custom md className setupFunc opts w =
     (case md of Fallback \<Rightarrow> fb_custom w | Live \<Rightarrow> live (prepareModal className setupFunc opts w))"

section \<open>Observations\<close>

text \<open>
  What a node tree shows, apart from the click handlers bound in it; the children the
  content container gets for a given content argument, before and after the close
  button is bound, and whether the container takes the content at all; what \<^verbatim>\<open>prepareModal\<close> makes of a class name, and when all its tokens are
  accepted; the page apart from the promise store; the scroll-related part of the page.
\<close>

fun unbound :: "node \<Rightarrow> node" where
  "unbound (Text s) = Text s"
| "unbound (Elem t i cs st oc ks) = Elem t i cs st None (map unbound ks)"

definition boundKids :: "ctx \<Rightarrow> node list \<Rightarrow> node list" where
  "boundKids c ks = (case bindFirstIn ''close-btn'' (ClickClose c) ks of None \<Rightarrow> ks | Some ks' \<Rightarrow> ks')"

definition shownKids :: "world \<Rightarrow> content \<Rightarrow> node list" where
  "shownKids w cont =
     (case cont of CStr s \<Rightarrow> innerHTML w s | CNode n \<Rightarrow> brings n | COther \<Rightarrow> [])"

fun fits :: "content \<Rightarrow> bool" where
  "fits (CNode n) = (\<not> refused n)"
| "fits (CStr s) = True"
| "fits COther = True"

definition classTokens :: "string option \<Rightarrow> classList" where
  "classTokens className =
     (case className of
        None \<Rightarrow> []
      | Some cn \<Rightarrow> if cn = [] then [] else addTokens (splitOn CHR '' '' cn) [])"

definition classOK :: "string option \<Rightarrow> bool" where
  "classOK className =
     (case className of
        None \<Rightarrow> True
      | Some cn \<Rightarrow> cn = [] \<or> tokenError (splitOn CHR '' '' cn) = None)"

definition page :: "world \<Rightarrow> world" where
  "page w = w\<lparr>promises := [], microtasks := []\<rparr>"

definition scrollState :: "world \<Rightarrow> nat \<times> nat \<times> classList \<times> cssTop \<times> string \<times> nat" where
  "scrollState w =
     (scrollY w, docScrollTop w, bodyClasses w, bodyTop w, scrollBehavior w, currentPos w)"

text \<open>
  The closure context \<^verbatim>\<open>confirm\<close> works in; the promise a reaction settles and the
  reactions a promise holds; a page is well formed when every promise its listeners,
  queued jobs and stored reactions refer to exists. \<open>apart n news\<close> says that the promises
  from index \<open>n\<close> on are exactly \<open>news\<close> and nothing queued or stored below refers to them.
  \<open>answered\<close> is what a reaction of \<^verbatim>\<open>confirm\<close> settles the result with, and \<open>clicked\<close> is the
  page right after one of the two buttons ran its handler.
\<close>

definition confirmCtx :: "world \<Rightarrow> ctx" where
  "confirmCtx w = \<lparr>cSettings = \<lparr>closeMode = ''overlay'', scrollLock = False\<rparr>,
                   cResolve = Suc (length (promises w))\<rparr>"

fun target :: "reaction \<Rightarrow> nat" where
  "target (ThenResolve q) = q"
| "target (ThenReject q) = q"
| "target (CatchReject q) = q"

fun reactionsOf :: "pstate \<Rightarrow> reaction list" where
  "reactionsOf (Pending rs) = rs"
| "reactionsOf (Fulfilled v) = []"
| "reactionsOf (Rejected v) = []"

definition wellFormed :: "world \<Rightarrow> bool" where
  "wellFormed w =
     (list_all (\<lambda>l. snd l < length (promises w) \<and> cResolve (fst l) < length (promises w))
        (mListeners w)
      \<and> list_all (\<lambda>job. target (fst job) < length (promises w)) (microtasks w)
      \<and> list_all (\<lambda>st. list_all (\<lambda>r. target r < length (promises w)) (reactionsOf st))
          (promises w))"

definition apart :: "nat \<Rightarrow> pstate list \<Rightarrow> world \<Rightarrow> bool" where
  "apart n news w =
     (\<exists>olds. promises w = olds @ news \<and> length olds = n
        \<and> (\<forall>st \<in> set olds. \<forall>r \<in> set (reactionsOf st). target r < n)
        \<and> (\<forall>job \<in> set (microtasks w). target (fst job) < n))"

definition answered :: "reaction \<Rightarrow> pstate" where
  "answered r = (case r of ThenResolve q \<Rightarrow> Fulfilled VUndefined
                 | ThenReject q \<Rightarrow> Rejected VUndefined
                 | CatchReject q \<Rightarrow> Pending [])"

definition clicked :: "world \<Rightarrow> string \<Rightarrow> reaction \<Rightarrow> world" where
  "clicked w txt r =
     w\<lparr>mClasses := [''choice''],
       mOnclick := Some (OverlayClick (confirmCtx w)),
       mListeners := mListeners w @ [(confirmCtx w, Suc (Suc (length (promises w))))],
       mKids := [confirmBody txt (confirmCtx w) (length (promises w))],
       timers := timers w @ [(now w + 400, FallbackTimeout)],
       promises := promises w @
         [Pending [], Pending [CatchReject (length (promises w))], Pending [r]]\<rparr>"

section \<open>Sample inputs\<close>

text \<open>
  A page with the dialog region and its content container, scrolled down by 120, on which
  nothing has happened yet. Its parser stands in for the browser's: it keeps the markup as
  one text node.
\<close>

definition page0 :: world where
  "page0 =
     \<lparr>modalFound = True, contentFound = True, parseHTML = (\<lambda>s. [Text s]),
      mClasses = [], mOnclick = None, mListeners = [], mKids = [], timers = [], now = 0,
      promises = [], microtasks = [], scrollY = 120, docScrollTop = 120, bodyClasses = [],
      bodyTop = TopUnset, scrollBehavior = [], currentPos = 0, console = []\<rparr>"

text \<open>The setup function \<^verbatim>\<open>function (show, close) { show(content); }\<close>.\<close>

definition showContent :: "content \<Rightarrow> setupFn" where
  "showContent cont = (\<lambda>c w. showModal c cont w)"

text \<open>The same page with the dialog region but no content container in it.\<close>

definition pageNoContent :: world where
  "pageNoContent = page0\<lparr>contentFound := False\<rparr>"

text \<open>The same page without the dialog region.\<close>

definition pageNoModal :: world where
  "pageNoModal = page0\<lparr>modalFound := False, contentFound := False\<rparr>"

section \<open>Panel toggler: properties\<close>

lemma set_addToken: "set (addToken t cs) = insert t (set cs)"
  by (auto simp: addToken_def)

lemma set_removeToken: "set (removeToken t cs) = set cs - {t}"
  by (auto simp: removeToken_def)

lemma removeToken_absent: "t \<notin> set cs \<Longrightarrow> removeToken t cs = cs"
  by (induction cs) (auto simp: removeToken_def)

lemma remove_add_absent: "t \<notin> set cs \<Longrightarrow> removeToken t (addToken t cs) = cs"
  by (auto simp: addToken_def removeToken_def filter_id_conv)

lemma panelClick_complete:
  assumes "pContent p = Some cs" and "pIcon p = Some ics"
  shows "panelClick p =
          (None,
           if ''giveContent'' \<in> set cs
           then p\<lparr>pContent := Some (removeToken ''giveContent'' cs),
                  pIcon := Some (removeToken ''active'' ics)\<rparr>
           else p\<lparr>pContent := Some (addToken ''giveContent'' cs),
                  pIcon := Some (addToken ''active'' ics)\<rparr>)"
  using assms by (simp add: panelClick_def iconRemove_def iconAdd_def)

lemma panelClick_synced:
  assumes "complete p"
  shows "synced (snd (panelClick p))"
proof -
  from assms obtain cs ics where p: "pContent p = Some cs" "pIcon p = Some ics"
    by (auto simp: complete_def)
  show ?thesis
    by (simp add: panelClick_complete [OF p] synced_def set_addToken set_removeToken)
qed

lemma panelClick_keeps_complete:
  assumes "complete p"
  shows "complete (snd (panelClick p))"
proof -
  from assms obtain cs ics where p: "pContent p = Some cs" "pIcon p = Some ics"
    by (auto simp: complete_def)
  show ?thesis
    by (simp add: panelClick_complete [OF p] complete_def)
qed

lemma synced_complete: "synced p \<Longrightarrow> complete p"
  by (auto simp: synced_def complete_def split: option.splits)

lemma panelClicks_synced:
  "synced p \<Longrightarrow> synced (panelClicks n p)"
proof (induction n arbitrary: p)
  case 0
  then show ?case by simp
next
  case (Suc n)
  have "synced (snd (panelClick p))"
    using Suc.prems by (intro panelClick_synced synced_complete)
  then show ?case by (simp add: Suc.IH)
qed

text \<open>
  C10. After any click on a header whose content and icon elements both exist, the icon
  carries \<^verbatim>\<open>active\<close> exactly when the content carries \<^verbatim>\<open>giveContent\<close>, whatever the two
  class lists were before; every further click keeps it so.
\<close>

theorem click_establishes_sync:
  assumes "complete p" and "0 < n"
  shows "synced (panelClicks n p)"
proof -
  from \<open>0 < n\<close> obtain m where n: "n = Suc m" by (cases n) auto
  have "synced (snd (panelClick p))"
    using \<open>complete p\<close> by (rule panelClick_synced)
  then show ?thesis by (simp add: n panelClicks_synced)
qed

theorem click_establishes_sync_witness:
  "complete \<lparr>pContent = Some [''box''], pIcon = Some [''fa'', ''active'']\<rparr>
   \<and> (0::nat) < 3
   \<and> synced (panelClicks 3 \<lparr>pContent = Some [''box''], pIcon = Some [''fa'', ''active'']\<rparr>)"
  using click_establishes_sync
    [of "\<lparr>pContent = Some [''box''], pIcon = Some [''fa'', ''active'']\<rparr>" 3]
  by (simp add: complete_def)

text \<open>
  C8, as stated, fails: with the icon already \<^verbatim>\<open>active\<close> over a collapsed content, two
  clicks leave the icon without \<^verbatim>\<open>active\<close>.
\<close>

theorem toggle_twice_counterexample:
  "pIcon (panelClicks 2 \<lparr>pContent = Some [], pIcon = Some [''active'']\<rparr>) \<noteq> Some [''active'']"
  by (simp add: numeral_2_eq_2 panelClick_def iconAdd_def iconRemove_def
      addToken_def removeToken_def)

text \<open>
  C8, amended. When the icon's \<^verbatim>\<open>active\<close> class agrees with the content's
  \<^verbatim>\<open>giveContent\<close> class before the first click, two clicks give both elements the classes
  they had (a class that was removed and added again now stands last in the list); when
  the panel starts collapsed both class lists come back unchanged, order included.
\<close>

theorem toggle_twice_synced:
  assumes c: "pContent p = Some cs" and i: "pIcon p = Some ics"
    and s: "(''active'' \<in> set ics) = (''giveContent'' \<in> set cs)"
  shows "\<exists>cs' ics'.
           panelClicks 2 p = p\<lparr>pContent := Some cs', pIcon := Some ics'\<rparr>
           \<and> set cs' = set cs \<and> set ics' = set ics
           \<and> (''giveContent'' \<notin> set cs \<longrightarrow> cs' = cs \<and> ics' = ics)"
proof (cases "''giveContent'' \<in> set cs")
  case True
  let ?p1 = "p\<lparr>pContent := Some (removeToken ''giveContent'' cs),
               pIcon := Some (removeToken ''active'' ics)\<rparr>"
  have one: "snd (panelClick p) = ?p1"
    by (simp add: panelClick_complete [OF c i] True)
  have two: "snd (panelClick ?p1) =
      ?p1\<lparr>pContent := Some (addToken ''giveContent'' (removeToken ''giveContent'' cs)),
           pIcon := Some (addToken ''active'' (removeToken ''active'' ics))\<rparr>"
    by (simp add: panelClick_complete [of ?p1] set_removeToken)
  have "panelClicks 2 p =
      p\<lparr>pContent := Some (addToken ''giveContent'' (removeToken ''giveContent'' cs)),
        pIcon := Some (addToken ''active'' (removeToken ''active'' ics))\<rparr>"
    by (simp add: numeral_2_eq_2 one two)
  moreover have "set (addToken ''giveContent'' (removeToken ''giveContent'' cs)) = set cs"
    using True by (auto simp: set_addToken set_removeToken)
  moreover have "set (addToken ''active'' (removeToken ''active'' ics)) = set ics"
    using True s by (auto simp: set_addToken set_removeToken)
  ultimately show ?thesis using True by blast
next
  case False
  with s have na: "''active'' \<notin> set ics" by simp
  let ?p1 = "p\<lparr>pContent := Some (addToken ''giveContent'' cs),
               pIcon := Some (addToken ''active'' ics)\<rparr>"
  have one: "snd (panelClick p) = ?p1"
    by (simp add: panelClick_complete [OF c i] False)
  have two: "snd (panelClick ?p1) =
      ?p1\<lparr>pContent := Some (removeToken ''giveContent'' (addToken ''giveContent'' cs)),
           pIcon := Some (removeToken ''active'' (addToken ''active'' ics))\<rparr>"
    by (simp add: panelClick_complete [of ?p1] set_addToken)
  have "panelClicks 2 p = p\<lparr>pContent := Some cs, pIcon := Some ics\<rparr>"
    by (simp add: numeral_2_eq_2 one two remove_add_absent [OF False] remove_add_absent [OF na])
  then show ?thesis by blast
qed

theorem toggle_twice_synced_witness:
  "(''active'' \<in> set [''fa'', ''active'']) = (''giveContent'' \<in> set [''giveContent'', ''box''])
   \<and> panelClicks 2 \<lparr>pContent = Some [''giveContent'', ''box''], pIcon = Some [''fa'', ''active'']\<rparr>
       = \<lparr>pContent = Some [''box'', ''giveContent''], pIcon = Some [''fa'', ''active'']\<rparr>"
  using toggle_twice_synced
    [of "\<lparr>pContent = Some [''giveContent'', ''box''], pIcon = Some [''fa'', ''active'']\<rparr>"
        "[''giveContent'', ''box'']" "[''fa'', ''active'']"]
  by (simp add: numeral_2_eq_2 panelClick_def iconAdd_def iconRemove_def
      addToken_def removeToken_def)

section \<open>Modal controller: the microtask queue empties\<close>

lemma length_jobsFor: "length (jobsFor st rs) \<le> length rs"
  by (simp add: jobsFor_def)

lemma sum_list_map_update:
  fixes f :: "'a \<Rightarrow> nat"
  shows "p < length ps \<Longrightarrow>
    sum_list (map f (ps[p := x])) + f (ps ! p) = sum_list (map f ps) + f x"
proof (induction ps arbitrary: p)
  case Nil
  then show ?case by simp
next
  case (Cons a ps)
  then show ?case by (cases p) auto
qed

lemma backlog_settle:
  assumes st: "waiting st = 0"
  shows "backlog (settle p st w) \<le> backlog w"
proof (cases "p < length (promises w)")
  case False
  then show ?thesis by (simp add: settle_def)
next
  case True
  show ?thesis
  proof (cases "promises w ! p")
    case (Pending rs)
    have "sum_list (map waiting ((promises w)[p := st])) + length rs
          = sum_list (map waiting (promises w)) + waiting st"
      using sum_list_map_update [OF True, of waiting st] Pending by simp
    moreover have "length (jobsFor st rs) \<le> length rs"
      by (rule length_jobsFor)
    moreover have "settle p st w =
        w\<lparr>promises := (promises w)[p := st], microtasks := microtasks w @ jobsFor st rs\<rparr>"
      using True Pending by (simp add: settle_def)
    ultimately show ?thesis
      using st by (simp add: backlog_def)
  qed (simp_all add: settle_def True)
qed

lemma backlog_runReaction: "backlog (runReaction r v w) \<le> backlog w"
  by (cases r) (simp_all add: resolveP_def rejectP_def backlog_settle)

termination drain
proof (relation "measure backlog")
  show "wf (measure backlog)" by simp
next
  fix w :: world and job jobs
  assume q: "microtasks w = job # jobs"
  have "backlog (runReaction (fst job) (snd job) (w\<lparr>microtasks := jobs\<rparr>))
        \<le> backlog (w\<lparr>microtasks := jobs\<rparr>)"
    by (rule backlog_runReaction)
  also have "\<dots> < backlog w"
    using q by (simp add: backlog_def)
  finally show "(runReaction (fst job) (snd job) (w\<lparr>microtasks := jobs\<rparr>), w) \<in> measure backlog"
    by simp
qed

declare drain.simps [simp del]

lemma drain_Nil: "microtasks w = [] \<Longrightarrow> drain w = w"
  by (subst drain.simps) simp

lemma drain_Cons:
  "microtasks w = job # jobs \<Longrightarrow>
   drain w = drain (runReaction (fst job) (snd job) (w\<lparr>microtasks := jobs\<rparr>))"
  by (subst drain.simps) simp

lemma settle_frame: "\<exists>ps ms. settle p st w = w\<lparr>promises := ps, microtasks := ms\<rparr>"
proof (cases "p < length (promises w)")
  case False
  then have "settle p st w = w\<lparr>promises := promises w, microtasks := microtasks w\<rparr>"
    by (simp add: settle_def)
  then show ?thesis by blast
next
  case True
  show ?thesis
  proof (cases "promises w ! p")
    case (Pending rs)
    then have "settle p st w =
        w\<lparr>promises := (promises w)[p := st], microtasks := microtasks w @ jobsFor st rs\<rparr>"
      using True by (simp add: settle_def)
    then show ?thesis by blast
  next
    case (Fulfilled v)
    then have "settle p st w = w\<lparr>promises := promises w, microtasks := microtasks w\<rparr>"
      using True by (simp add: settle_def)
    then show ?thesis by blast
  next
    case (Rejected v)
    then have "settle p st w = w\<lparr>promises := promises w, microtasks := microtasks w\<rparr>"
      using True by (simp add: settle_def)
    then show ?thesis by blast
  qed
qed

lemma runReaction_frame:
  "\<exists>ps ms. runReaction r v w = w\<lparr>promises := ps, microtasks := ms\<rparr>"
  by (cases r) (simp_all add: resolveP_def rejectP_def settle_frame)

lemma drain_frame: "\<exists>ps ms. drain w = w\<lparr>promises := ps, microtasks := ms\<rparr>"
proof (induction w rule: drain.induct)
  case (1 w)
  show ?case
  proof (cases "microtasks w")
    case Nil
    then have "drain w = w\<lparr>promises := promises w, microtasks := microtasks w\<rparr>"
      by (simp add: drain_Nil)
    then show ?thesis by blast
  next
    case (Cons job jobs)
    let ?w1 = "runReaction (fst job) (snd job) (w\<lparr>microtasks := jobs\<rparr>)"
    from 1 [OF Cons] obtain ps ms where d: "drain ?w1 = ?w1\<lparr>promises := ps, microtasks := ms\<rparr>"
      by blast
    obtain ps' ms' where r: "?w1 = (w\<lparr>microtasks := jobs\<rparr>)\<lparr>promises := ps', microtasks := ms'\<rparr>"
      using runReaction_frame by blast
    have "drain w = drain ?w1" using Cons by (rule drain_Cons)
    also have "\<dots> = w\<lparr>promises := ps, microtasks := ms\<rparr>"
      by (subst d, subst r) simp
    finally show ?thesis by blast
  qed
qed

lemma settle_fresh:
  "settle (length ps) st (w\<lparr>promises := ps @ [Pending []]\<rparr>) = w\<lparr>promises := ps @ [st]\<rparr>"
  by (simp add: settle_def jobsFor_def)

section \<open>Modal controller: closing\<close>

lemma closeModal_closed:
  assumes "''active'' \<notin> set (mClasses w)"
  shows "closeModal c w = (length (promises w), w\<lparr>promises := promises w @ [Fulfilled VUndefined]\<rparr>)"
  using assms by (simp add: closeModal_def newPromise_def resolveP_def settle_fresh)

text \<open>
  C3. When the dialog region does not carry \<^verbatim>\<open>active\<close>, \<^verbatim>\<open>closeModal\<close> returns a promise that
  is already fulfilled and leaves everything else as it was: no listener and no timer is
  registered, the class list is untouched. A second call therefore does the same again.
\<close>

theorem close_when_closed:
  assumes "''active'' \<notin> set (mClasses w)"
  shows "closeModal c w =
           (length (promises w), w\<lparr>promises := promises w @ [Fulfilled VUndefined]\<rparr>)
         \<and> mListeners (snd (closeModal c w)) = mListeners w
         \<and> timers (snd (closeModal c w)) = timers w
         \<and> mClasses (snd (closeModal c w)) = mClasses w
         \<and> snd (closeModal c (snd (closeModal c w))) =
             w\<lparr>promises := promises w @ [Fulfilled VUndefined, Fulfilled VUndefined]\<rparr>"
  using assms by (simp add: closeModal_closed)

theorem close_when_closed_witness:
  "''active'' \<notin> set (mClasses page0)
   \<and> closeModal \<lparr>cSettings = \<lparr>closeMode = ''overlay'', scrollLock = True\<rparr>, cResolve = 0\<rparr> page0
       = (0, page0\<lparr>promises := [Fulfilled VUndefined]\<rparr>)"
  using close_when_closed
    [of page0 "\<lparr>cSettings = \<lparr>closeMode = ''overlay'', scrollLock = True\<rparr>, cResolve = 0\<rparr>"]
  by (simp add: page0_def)

section \<open>Modal controller: showing\<close>

lemma unbound_bindFirst:
  "bindFirst c h n = Some n' \<Longrightarrow> unbound n' = unbound n"
  "bindFirstIn c h ns = Some ns' \<Longrightarrow> map unbound ns' = map unbound ns"
proof (induction c h n and c h ns arbitrary: n' and ns' rule: bindFirst_bindFirstIn.induct)
  case (1 c h s)
  then show ?case by simp
next
  case (2 c h t i cs st oc ks)
  then show ?case by (auto split: if_splits option.splits)
next
  case (3 c h)
  then show ?case by simp
next
  case (4 c h n ns)
  then show ?case by (auto split: option.splits)
qed

lemma unbound_boundKids: "map unbound (boundKids c ks) = map unbound ks"
  by (simp add: boundKids_def unbound_bindFirst split: option.splits)

lemma innerHTML_update [simp]:
  "innerHTML (w\<lparr>mKids := ks\<rparr>) s = innerHTML w s"
  by (simp add: innerHTML_def)

lemma fillContent_fits:
  "fits cont \<Longrightarrow> fillContent cont (w\<lparr>mKids := []\<rparr>) = (None, w\<lparr>mKids := shownKids w cont\<rparr>)"
  by (cases cont) (simp_all add: fillContent_def appendInto_def shownKids_def)

lemma fillContent_refused:
  "\<not> fits cont \<Longrightarrow> fillContent cont w = (Some HierarchyRequestError, w)"
  by (cases cont) (simp_all add: fillContent_def appendInto_def)

lemma showModal_refused:
  assumes "contentFound w" and "\<not> fits cont"
  shows "showModal c cont w = (Some HierarchyRequestError, w\<lparr>mKids := []\<rparr>)"
  using assms by (simp add: showModal_def fillContent_refused)

lemma showModal_found:
  assumes "contentFound w" and "fits cont"
  shows "showModal c cont w =
    (None,
     (if scrollLock (cSettings c) then lock else (\<lambda>x. x))
       (w\<lparr>mClasses := addToken ''active'' (mClasses w),
          mKids := boundKids c (shownKids w cont)\<rparr>))"
  using assms
  by (simp add: showModal_def fillContent_fits boundKids_def lock_def Let_def split: option.splits)

lemma showModal_missing: "\<not> contentFound w \<Longrightarrow> showModal c cont w = (Some TypeError, w)"
  by (simp add: showModal_def)

lemma page_settle: "page (settle p st w) = page w"
proof -
  obtain ps ms where "settle p st w = w\<lparr>promises := ps, microtasks := ms\<rparr>"
    using settle_frame by blast
  then show ?thesis by (simp add: page_def)
qed

lemma page_drain: "page (drain w) = page w"
proof -
  obtain ps ms where "drain w = w\<lparr>promises := ps, microtasks := ms\<rparr>"
    using drain_frame by blast
  then show ?thesis by (simp add: page_def)
qed

lemma page_fields:
  assumes "page a = page b"
  shows "mClasses a = mClasses b" and "mListeners a = mListeners b" and "timers a = timers b"
    and "mKids a = mKids b" and "mOnclick a = mOnclick b" and "scrollState a = scrollState b"
    and "currentPos a = currentPos b" and "scrollY a = scrollY b"
    and "bodyClasses a = bodyClasses b" and "bodyTop a = bodyTop b"
    and "scrollBehavior a = scrollBehavior b" and "now a = now b" and "console a = console b"
proof -
  have "mClasses (page a) = mClasses (page b)" using assms by simp
  then show "mClasses a = mClasses b" by (simp add: page_def)
  have "mListeners (page a) = mListeners (page b)" using assms by simp
  then show "mListeners a = mListeners b" by (simp add: page_def)
  have "timers (page a) = timers (page b)" using assms by simp
  then show "timers a = timers b" by (simp add: page_def)
  have "mKids (page a) = mKids (page b)" using assms by simp
  then show "mKids a = mKids b" by (simp add: page_def)
  have "mOnclick (page a) = mOnclick (page b)" using assms by simp
  then show "mOnclick a = mOnclick b" by (simp add: page_def)
  have "scrollState (page a) = scrollState (page b)" using assms by simp
  then show s: "scrollState a = scrollState b" by (simp add: page_def scrollState_def)
  from s show "currentPos a = currentPos b" and "scrollY a = scrollY b"
    and "bodyClasses a = bodyClasses b" and "bodyTop a = bodyTop b"
    and "scrollBehavior a = scrollBehavior b"
    by (simp_all add: scrollState_def)
  have "now (page a) = now (page b)" using assms by simp
  then show "now a = now b" by (simp add: page_def)
  have "console (page a) = console (page b)" using assms by simp
  then show "console a = console b" by (simp add: page_def)
qed

lemma resetClasses_ok:
  assumes "classOK className"
  shows "resetClasses className w = (None, w\<lparr>mClasses := classTokens className\<rparr>)"
  using assms
  by (auto simp: resetClasses_def classOK_def classTokens_def classListAdd_def Let_def
      split: option.splits)

lemma mClasses_bindClose [simp]: "mClasses (bindClose c w) = mClasses w"
  by (simp add: bindClose_def Let_def)

lemma contentFound_bindClose [simp]: "contentFound (bindClose c w) = contentFound w"
  by (simp add: bindClose_def Let_def)

lemma promises_bindClose [simp]: "promises (bindClose c w) = promises w"
  by (simp add: bindClose_def Let_def)

lemma mClasses_lock [simp]: "mClasses (lock w) = mClasses w"
  by (simp add: lock_def Let_def)

lemma promises_lock [simp]: "promises (lock w) = promises w"
  by (simp add: lock_def Let_def)

lemma mKids_lock [simp]: "mKids (lock w) = mKids w"
  by (simp add: lock_def Let_def)

lemma mClasses_showModal:
  "contentFound w \<Longrightarrow> fits cont \<Longrightarrow>
   mClasses (snd (showModal c cont w)) = addToken ''active'' (mClasses w)"
  by (cases "scrollLock (cSettings c)") (simp_all add: showModal_found)

lemma prepare_show:
  assumes "contentFound w" and "classOK className" and "fits cont"
  shows "prepareModal className (Some (showContent cont)) opts w =
    (length (promises w),
     snd (showModal \<lparr>cSettings = assignSettings opts, cResolve = length (promises w)\<rparr> cont
            (bindClose \<lparr>cSettings = assignSettings opts, cResolve = length (promises w)\<rparr>
               (w\<lparr>promises := promises w @ [Pending []],
                  mClasses := classTokens className\<rparr>))))"
  using assms
  by (simp add: prepareModal_def newPromise_def executor_def resetClasses_ok showContent_def
      showModal_found Let_def)

lemma prepare_refused:
  assumes "contentFound w" and "classOK className" and "\<not> fits cont"
  shows "prepareModal className (Some (showContent cont)) opts w =
    (length (promises w),
     rejectP (length (promises w)) (VError HierarchyRequestError)
       ((bindClose \<lparr>cSettings = assignSettings opts, cResolve = length (promises w)\<rparr>
           (w\<lparr>promises := promises w @ [Pending []],
              mClasses := classTokens className\<rparr>))\<lparr>mKids := []\<rparr>))"
  using assms
  by (simp add: prepareModal_def newPromise_def executor_def resetClasses_ok showContent_def
      showModal_refused Let_def)

lemma prepare_classes:
  assumes "contentFound w" and "classOK className"
  shows "fst (prepareModal className (Some (showContent cont)) opts w) = length (promises w)"
    and "mClasses (snd (prepareModal className (Some (showContent cont)) opts w)) =
           (if fits cont then addToken ''active'' (classTokens className)
            else classTokens className)"
proof -
  let ?c = "\<lparr>cSettings = assignSettings opts, cResolve = length (promises w)\<rparr>"
  let ?w0 = "bindClose ?c (w\<lparr>promises := promises w @ [Pending []],
                              mClasses := classTokens className\<rparr>)"
  show "fst (prepareModal className (Some (showContent cont)) opts w) = length (promises w)"
    using assms by (cases "fits cont") (simp_all add: prepare_show prepare_refused)
  show "mClasses (snd (prepareModal className (Some (showContent cont)) opts w)) =
           (if fits cont then addToken ''active'' (classTokens className)
            else classTokens className)"
  proof (cases "fits cont")
    case True
    then show ?thesis using assms by (simp add: prepare_show mClasses_showModal)
  next
    case False
    have "page (rejectP (length (promises w)) (VError HierarchyRequestError) (?w0\<lparr>mKids := []\<rparr>))
          = page (?w0\<lparr>mKids := []\<rparr>)"
      by (simp add: rejectP_def page_settle)
    then have "mClasses (rejectP (length (promises w)) (VError HierarchyRequestError)
                 (?w0\<lparr>mKids := []\<rparr>)) = mClasses (?w0\<lparr>mKids := []\<rparr>)"
      by (rule page_fields)
    then show ?thesis using False assms by (simp add: prepare_refused)
  qed
qed

lemma removeToken_addToken: "removeToken t (addToken t cs) = removeToken t cs"
  by (simp add: addToken_def removeToken_def)

lemma mClasses_onTransitionEnd: "mClasses (onTransitionEnd l w) = mClasses w"
proof -
  have "page (onTransitionEnd l w) =
        page (if scrollLock (cSettings (fst l)) then unlock w else w)"
    by (simp add: onTransitionEnd_def Let_def resolveP_def page_settle)
  then have "mClasses (onTransitionEnd l w) =
        mClasses (if scrollLock (cSettings (fst l)) then unlock w else w)"
    by (rule page_fields)
  then show ?thesis by (simp add: unlock_def)
qed

lemma foldl_keeps:
  assumes "\<And>a l. f (step a l) = f a"
  shows "f (foldl step a ls) = f a"
  by (induction ls arbitrary: a) (simp_all add: assms)

lemma mClasses_drain: "mClasses (drain w) = mClasses w"
  using page_drain by (rule page_fields)

lemma mClasses_TransitionEnd: "mClasses (fire TransitionEnd w) = mClasses w"
proof -
  have "mClasses (foldl (\<lambda>a l. drain (onTransitionEnd l a)) (w\<lparr>mListeners := []\<rparr>) (mListeners w))
        = mClasses (w\<lparr>mListeners := []\<rparr>)"
    by (rule foldl_keeps) (simp add: mClasses_drain mClasses_onTransitionEnd)
  then show ?thesis by simp
qed

lemma mClasses_closeModal:
  "mClasses (snd (closeModal c w)) = removeToken ''active'' (mClasses w)"
proof (cases "''active'' \<in> set (mClasses w)")
  case True
  then show ?thesis
    by (simp add: closeModal_def newPromise_def setTimeout_def Let_def)
next
  case False
  then show ?thesis
    by (simp add: closeModal_closed removeToken_absent)
qed

text \<open>
  C1, amended. After an open with class name \<open>className\<close> (every token accepted by
  \<^verbatim>\<open>classList.add\<close>) and a close, the region's class list is the list of that name's
  tokens without \<^verbatim>\<open>active\<close>, from the close call on and still after the transition has
  ended; in between it carries \<^verbatim>\<open>active\<close> as well, unless the container refused the content. The class list the region had before the open plays no part: the open discards
  it. So the pair leaves the class list as it found it exactly when the region already
  carried these classes.
\<close>

theorem open_close_classes:
  assumes "contentFound w" and "classOK className"
  shows "let (p, w1) = prepareModal className (Some (showContent cont)) opts w;
             c = \<lparr>cSettings = assignSettings opts, cResolve = p\<rparr>;
             (q, w2) = closeModal c w1
         in mClasses w1 = (if fits cont then addToken ''active'' (classTokens className)
                           else classTokens className)
            \<and> mClasses w2 = removeToken ''active'' (classTokens className)
            \<and> mClasses (fire TransitionEnd w2) = removeToken ''active'' (classTokens className)
            \<and> (mClasses (fire TransitionEnd w2) = mClasses w) =
                (mClasses w = removeToken ''active'' (classTokens className))"
proof -
  let ?c = "\<lparr>cSettings = assignSettings opts, cResolve = length (promises w)\<rparr>"
  define w1 where "w1 = snd (prepareModal className (Some (showContent cont)) opts w)"
  have p: "prepareModal className (Some (showContent cont)) opts w = (length (promises w), w1)"
    using prepare_classes(1) [OF assms, of cont opts] by (simp add: prod_eq_iff w1_def)
  have c1: "mClasses w1 = (if fits cont then addToken ''active'' (classTokens className)
                           else classTokens className)"
    unfolding w1_def by (rule prepare_classes(2) [OF assms])
  obtain q w2 where w2: "closeModal ?c w1 = (q, w2)"
    by (cases "closeModal ?c w1")
  have c2: "mClasses w2 = removeToken ''active'' (classTokens className)"
    using mClasses_closeModal [of ?c w1] by (simp add: w2 c1 removeToken_addToken)
  show ?thesis
    unfolding p by (auto simp: w2 c1 c2 mClasses_TransitionEnd simp del: fire.simps)
qed

text \<open>
  C1, as stated, fails: on a page whose region has no class yet, opening with class
  \<^verbatim>\<open>spinner\<close> and closing, with the transition ended and the close promise fulfilled,
  leaves the class \<^verbatim>\<open>spinner\<close> behind.
\<close>

theorem open_close_classes_counterexample:
  "let (p, w1) = prepareModal (Some ''spinner'') (Some (showContent (CStr ''hi'')))
                   \<lparr>optClose = None, optScrollLock = None\<rparr> page0;
       (q, w2) = closeModal \<lparr>cSettings = \<lparr>closeMode = ''overlay'', scrollLock = False\<rparr>,
                             cResolve = p\<rparr> w1;
       w3 = fire TransitionEnd w2
   in promises w3 ! q = Fulfilled VUndefined \<and> mClasses w3 = [''spinner'']
      \<and> mClasses w3 \<noteq> mClasses page0"
  by code_simp

theorem open_close_classes_witness:
  "contentFound page0 \<and> classOK (Some ''notification error'')
   \<and> (let (p, w1) = prepareModal (Some ''notification error'') (Some (showContent COther))
                       \<lparr>optClose = Some ''all'', optScrollLock = None\<rparr> page0;
            c = \<lparr>cSettings = assignSettings \<lparr>optClose = Some ''all'', optScrollLock = None\<rparr>,
                  cResolve = p\<rparr>;
            (q, w2) = closeModal c w1
        in mClasses w1 = [''notification'', ''error'', ''active'']
           \<and> mClasses w2 = [''notification'', ''error'']
           \<and> mClasses (fire TransitionEnd w2) = [''notification'', ''error'']
           \<and> mClasses (fire TransitionEnd w2) \<noteq> mClasses page0)"
proof -
  have h1: "contentFound page0" by (simp add: page0_def)
  have h2: "classOK (Some ''notification error'')"
    by (simp add: classOK_def asciiWhitespace_def)
  have t: "classTokens (Some ''notification error'') = [''notification'', ''error'']"
    by (simp add: classTokens_def addTokens_def addToken_def)
  show ?thesis
    using open_close_classes [OF h1 h2, of COther "\<lparr>optClose = Some ''all'', optScrollLock = None\<rparr>"]
    by (simp add: h1 h2 t addToken_def removeToken_def page0_def del: fire.simps)
qed

lemma unbound_shown:
  assumes "contentFound w" and "fits cont"
  shows "map unbound (mKids (snd (showModal c cont w))) = map unbound (shownKids w cont)"
  using assms
  by (cases "scrollLock (cSettings c)") (simp_all add: showModal_found unbound_boundKids)

lemma promises_showModal:
  "promises (snd (showModal c cont w)) = promises w"
proof (cases "contentFound w")
  case True
  show ?thesis
  proof (cases "fits cont")
    case fit: True
    then show ?thesis
      using True by (cases "scrollLock (cSettings c)") (simp_all add: showModal_found)
  next
    case False
    then show ?thesis using True by (simp add: showModal_refused)
  qed
next
  case False
  then show ?thesis by (simp add: showModal_missing)
qed

text \<open>
  C9, amended. On a page with the content container, \<^verbatim>\<open>showModal\<close> raises for no content
  argument that is a string, a node the container takes as a child, or a value that is
  neither a string nor a node: a string shows as its parsed markup, a node as that node,
  and anything else leaves the container cleared and empty. Opened through
  \<^verbatim>\<open>prepareModal\<close> with a class name whose tokens are accepted, the returned promise is
  pending, not rejected.
\<close>

theorem show_any_content:
  assumes "contentFound w" and "classOK className" and "fits cont"
  shows "fst (showModal c cont w) = None
         \<and> map unbound (mKids (snd (showModal c cont w))) = map unbound (shownKids w cont)
         \<and> mKids (snd (showModal c COther w)) = []
         \<and> (let (p, w1) = prepareModal className (Some (showContent cont)) opts w
            in p = length (promises w) \<and> promises w1 = promises w @ [Pending []]
               \<and> map unbound (mKids w1) = map unbound (shownKids w cont))"
proof -
  have a: "fst (showModal c cont w) = None"
    using assms(1,3) by (simp add: showModal_found)
  have b: "mKids (snd (showModal c COther w)) = []"
    using assms(1)
    by (cases "scrollLock (cSettings c)")
       (simp_all add: showModal_found shownKids_def boundKids_def)
  let ?c = "\<lparr>cSettings = assignSettings opts, cResolve = length (promises w)\<rparr>"
  let ?w0 = "bindClose ?c (w\<lparr>promises := promises w @ [Pending []],
                               mClasses := classTokens className\<rparr>)"
  have f: "contentFound ?w0" using assms(1) by simp
  have s: "shownKids ?w0 cont = shownKids w cont"
    by (simp add: shownKids_def innerHTML_def bindClose_def Let_def split: content.splits)
  have d: "prepareModal className (Some (showContent cont)) opts w
           = (length (promises w), snd (showModal ?c cont ?w0))"
    by (rule prepare_show [OF assms])
  show ?thesis
    unfolding d
    by (simp add: a b unbound_shown [OF assms(1,3)] unbound_shown [OF f assms(3)] s
        promises_showModal)
qed

text \<open>
  C9, as stated, fails: a document node is a node, \<^verbatim>\<open>appendChild\<close> refuses it, and the open
  is rejected with the error after the container was cleared. An open on a page without
  the content container and an open whose class name has an empty token are rejected as
  well, whatever the content.
\<close>

theorem show_any_content_counterexample:
  "fst (showModal \<lparr>cSettings = \<lparr>closeMode = ''overlay'', scrollLock = False\<rparr>,
                    cResolve = 0\<rparr> (CNode DocumentNode) page0) = Some HierarchyRequestError
   \<and> promises (snd (prepareModal (Some ''box'') (Some (showContent (CNode DocumentNode)))
                      \<lparr>optClose = None, optScrollLock = None\<rparr> page0))
       = [Rejected (VError HierarchyRequestError)]
   \<and> promises (snd (prepareModal (Some ''box'') (Some (showContent COther))
                      \<lparr>optClose = None, optScrollLock = None\<rparr> pageNoContent))
       = [Rejected (VError TypeError)]
   \<and> promises (snd (prepareModal (Some ''a  b'') (Some (showContent COther))
                      \<lparr>optClose = None, optScrollLock = None\<rparr> page0))
       = [Rejected (VError SyntaxError)]"
  by code_simp

theorem show_any_content_witness:
  "contentFound page0 \<and> classOK (Some ''box'') \<and> fits COther
   \<and> fst (showModal \<lparr>cSettings = \<lparr>closeMode = ''overlay'', scrollLock = False\<rparr>,
                         cResolve = 0\<rparr> COther page0) = None
   \<and> mKids (snd (showModal \<lparr>cSettings = \<lparr>closeMode = ''overlay'', scrollLock = False\<rparr>,
                                cResolve = 0\<rparr> COther page0)) = []
   \<and> snd (prepareModal (Some ''box'') (Some (showContent COther))
            \<lparr>optClose = None, optScrollLock = None\<rparr> page0)
       = page0\<lparr>mClasses := [''box'', ''active''], promises := [Pending []],
               mOnclick := Some (OverlayClick \<lparr>cSettings = \<lparr>closeMode = ''overlay'',
                                  scrollLock = False\<rparr>, cResolve = 0\<rparr>)\<rparr>"
proof -
  have h1: "contentFound page0" by (simp add: page0_def)
  have h2: "classOK (Some ''box'')"
    by (simp add: classOK_def asciiWhitespace_def)
  have h3: "fits COther" by simp
  have e: "snd (prepareModal (Some ''box'') (Some (showContent COther))
            \<lparr>optClose = None, optScrollLock = None\<rparr> page0)
       = page0\<lparr>mClasses := [''box'', ''active''], promises := [Pending []],
               mOnclick := Some (OverlayClick \<lparr>cSettings = \<lparr>closeMode = ''overlay'',
                                  scrollLock = False\<rparr>, cResolve = 0\<rparr>)\<rparr>"
    by (simp add: prepareModal_def newPromise_def executor_def resetClasses_def classListAdd_def
        addTokens_def addToken_def asciiWhitespace_def assignSettings_def bindClose_def
        showContent_def showModal_def fillContent_def page0_def Let_def)
  show ?thesis
    using show_any_content [OF h1 h2 h3,
        of "\<lparr>cSettings = \<lparr>closeMode = ''overlay'', scrollLock = False\<rparr>, cResolve = 0\<rparr>"
           "\<lparr>optClose = None, optScrollLock = None\<rparr>"]
    by (simp add: h1 h2 e)
qed

section \<open>Modal controller: messages and scroll lock\<close>








lemma page_onTransitionEnd:
  "page (onTransitionEnd l w) = page (if scrollLock (cSettings (fst l)) then unlock w else w)"
  by (simp add: onTransitionEnd_def Let_def resolveP_def page_settle)

lemma scrollState_onTransitionEnd:
  "scrollState (onTransitionEnd l w) =
   scrollState (if scrollLock (cSettings (fst l)) then unlock w else w)"
  using page_onTransitionEnd by (rule page_fields)

lemma scrollState_drain: "scrollState (drain w) = scrollState w"
  using page_drain by (rule page_fields)

lemma currentPos_step: "currentPos (drain (onTransitionEnd l a)) = currentPos a"
proof -
  have "scrollState (drain (onTransitionEnd l a)) =
        scrollState (if scrollLock (cSettings (fst l)) then unlock a else a)"
    by (simp add: scrollState_drain scrollState_onTransitionEnd)
  then show ?thesis by (simp add: scrollState_def unlock_def split: if_splits)
qed

lemma scrollState_showModal:
  "\<not> scrollLock (cSettings c) \<Longrightarrow> scrollState (snd (showModal c cont w)) = scrollState w"
  by (cases "contentFound w"; cases "fits cont")
     (simp_all add: showModal_found showModal_refused showModal_missing scrollState_def)

lemma scrollState_showModal_refused:
  "\<not> fits cont \<Longrightarrow> scrollState (snd (showModal c cont w)) = scrollState w"
  by (cases "contentFound w")
     (simp_all add: showModal_refused showModal_missing scrollState_def)

lemma scrollState_closeModal: "scrollState (snd (closeModal c w)) = scrollState w"
proof (cases "''active'' \<in> set (mClasses w)")
  case True
  then show ?thesis
    by (simp add: closeModal_def newPromise_def setTimeout_def Let_def scrollState_def)
next
  case False
  then show ?thesis by (simp add: closeModal_closed scrollState_def)
qed

lemma mListeners_closeModal_open:
  "''active'' \<in> set (mClasses w) \<Longrightarrow>
   mListeners (snd (closeModal c w)) = mListeners w @ [(c, length (promises w))]"
  by (simp add: closeModal_def newPromise_def setTimeout_def Let_def)

lemma shown_locked:
  assumes "contentFound w" and "scrollLock (cSettings c)" and "fits cont"
  shows "snd (showModal c cont w) =
     lock (w\<lparr>mClasses := addToken ''active'' (mClasses w),
             mKids := boundKids c (shownKids w cont)\<rparr>)"
  using assms by (simp add: showModal_found)

text \<open>
  C7. With \<^verbatim>\<open>scrollLock\<close> false, showing, closing and the end of the close transition each
  leave the scroll-related page state as it was. With \<^verbatim>\<open>scrollLock\<close> true, showing saves the
  vertical offset and locks the body, and the end of the close transition puts the
  viewport back at exactly the saved offset and unlocks the body, wherever the page was
  scrolled to in between. A show that raises because the container refuses the node
  has not locked anything.
\<close>

theorem scroll_lock_cycle:
  assumes "contentFound w"
  shows "(\<not> scrollLock (cSettings c) \<longrightarrow>
            scrollState (snd (showModal c cont w)) = scrollState w
            \<and> scrollState (snd (closeModal c w)) = scrollState w
            \<and> scrollState (onTransitionEnd (c, q) w) = scrollState w)
         \<and> (scrollLock (cSettings c) \<and> fits cont \<longrightarrow>
              (let saved = (if scrollY w \<noteq> 0 then scrollY w else docScrollTop w);
                   w1 = snd (showModal c cont w);
                   w2 = snd (closeModal c (w1\<lparr>scrollY := y, docScrollTop := y'\<rparr>));
                   w3 = fire TransitionEnd w2
               in currentPos w1 = saved \<and> ''locked'' \<in> set (bodyClasses w1)
                  \<and> bodyTop w1 = TopMinusPx saved
                  \<and> scrollY w3 = saved \<and> docScrollTop w3 = saved
                  \<and> ''locked'' \<notin> set (bodyClasses w3)
                  \<and> bodyTop w3 = TopUnset \<and> scrollBehavior w3 = []))
         \<and> (\<not> fits cont \<longrightarrow> scrollState (snd (showModal c cont w)) = scrollState w)"
proof (intro conjI impI)
  assume off: "\<not> scrollLock (cSettings c)"
  show "scrollState (snd (showModal c cont w)) = scrollState w"
    using off by (rule scrollState_showModal)
  show "scrollState (snd (closeModal c w)) = scrollState w"
    by (rule scrollState_closeModal)
  show "scrollState (onTransitionEnd (c, q) w) = scrollState w"
    using off by (simp add: scrollState_onTransitionEnd)
next
  assume "\<not> fits cont"
  then show "scrollState (snd (showModal c cont w)) = scrollState w"
    by (rule scrollState_showModal_refused)
next
  assume both: "scrollLock (cSettings c) \<and> fits cont"
  then have on: "scrollLock (cSettings c)" and fit: "fits cont" by simp_all
  let ?saved = "if scrollY w \<noteq> 0 then scrollY w else docScrollTop w"
  let ?w1 = "snd (showModal c cont w)"
  let ?w1' = "?w1\<lparr>scrollY := y, docScrollTop := y'\<rparr>"
  let ?w2 = "snd (closeModal c ?w1')"
  let ?step = "\<lambda>a l. drain (onTransitionEnd l a)"
  have w1: "?w1 = lock (w\<lparr>mClasses := addToken ''active'' (mClasses w),
                            mKids := boundKids c (shownKids w cont)\<rparr>)"
    using assms on fit by (rule shown_locked)
  have p1: "currentPos ?w1 = ?saved" and l1: "''locked'' \<in> set (bodyClasses ?w1)"
    and t1: "bodyTop ?w1 = TopMinusPx ?saved"
    by (simp_all add: w1 lock_def Let_def set_addToken)
  have act: "''active'' \<in> set (mClasses ?w1')"
    by (simp add: w1 set_addToken)
  have ls: "mListeners ?w2 = mListeners ?w1' @ [(c, length (promises ?w1'))]"
    using act by (rule mListeners_closeModal_open)
  have p2: "currentPos ?w2 = ?saved"
    using scrollState_closeModal [of c ?w1'] p1 by (simp add: scrollState_def)
  let ?x = "foldl ?step (?w2\<lparr>mListeners := []\<rparr>) (mListeners ?w1')"
  have px: "currentPos ?x = ?saved"
    using foldl_keeps [of currentPos ?step "?w2\<lparr>mListeners := []\<rparr>" "mListeners ?w1'"]
    by (simp add: currentPos_step p2)
  have w3: "fire TransitionEnd ?w2 = drain (onTransitionEnd (c, length (promises ?w1')) ?x)"
    by (simp add: ls)
  have "scrollState (drain (onTransitionEnd (c, length (promises ?w1')) ?x))
        = scrollState (unlock ?x)"
    by (simp add: scrollState_drain scrollState_onTransitionEnd on)
  then have "scrollState (fire TransitionEnd ?w2) = scrollState (unlock ?x)"
    by (simp only: w3)
  then have fin: "scrollY (fire TransitionEnd ?w2) = ?saved"
    "docScrollTop (fire TransitionEnd ?w2) = ?saved"
    "''locked'' \<notin> set (bodyClasses (fire TransitionEnd ?w2))"
    "bodyTop (fire TransitionEnd ?w2) = TopUnset"
    "scrollBehavior (fire TransitionEnd ?w2) = []"
    using px by (simp_all add: scrollState_def unlock_def set_removeToken del: fire.simps)
  show "let saved = ?saved; w1 = ?w1; w2 = snd (closeModal c (w1\<lparr>scrollY := y, docScrollTop := y'\<rparr>));
            w3 = fire TransitionEnd w2
        in currentPos w1 = saved \<and> ''locked'' \<in> set (bodyClasses w1)
           \<and> bodyTop w1 = TopMinusPx saved
           \<and> scrollY w3 = saved \<and> docScrollTop w3 = saved
           \<and> ''locked'' \<notin> set (bodyClasses w3)
           \<and> bodyTop w3 = TopUnset \<and> scrollBehavior w3 = []"
    unfolding Let_def using p1 l1 t1 fin by blast
qed

theorem scroll_lock_cycle_witness:
  "contentFound page0
   \<and> scrollLock (cSettings \<lparr>cSettings = \<lparr>closeMode = ''overlay'', scrollLock = True\<rparr>, cResolve = 0\<rparr>)
   \<and> (let c = \<lparr>cSettings = \<lparr>closeMode = ''overlay'', scrollLock = True\<rparr>, cResolve = 0\<rparr>;
            w1 = snd (showModal c (CStr ''hi'') page0);
            w2 = snd (closeModal c (w1\<lparr>scrollY := 0, docScrollTop := 0\<rparr>));
            w3 = fire TransitionEnd w2
        in currentPos w1 = 120 \<and> ''locked'' \<in> set (bodyClasses w1)
           \<and> scrollY w3 = 120 \<and> ''locked'' \<notin> set (bodyClasses w3))"
proof -
  have h: "contentFound page0" by (simp add: page0_def)
  have s: "scrollY page0 = 120" by (simp add: page0_def)
  show ?thesis
    using scroll_lock_cycle [OF h,
        of "\<lparr>cSettings = \<lparr>closeMode = ''overlay'', scrollLock = True\<rparr>, cResolve = 0\<rparr>"
           "CStr ''hi''" 0 0 0]
    by (simp add: h s Let_def del: fire.simps)
qed

section \<open>Modal controller: the fallback timer and the fallback object\<close>

lemma tick_idle: "timers w = [] \<Longrightarrow> fire Tick w = w"
  by simp

lemma ticks_idle: "timers w = [] \<Longrightarrow> run (replicate n Tick) w = w"
  by (induction n) (simp_all del: fire.simps add: tick_idle)

lemma fallback_timer_noop: "runTimer FallbackTimeout w = w"
  by simp

text \<open>
  C2. A close on a visible dialog is meant to complete, unlocking scroll and resolving
  the open call's promise, even when no \<^verbatim>\<open>transitionend\<close> event arrives, through a fallback
  timer of 400. The timer the code sets has an empty body: on a dialog opened with
  \<^verbatim>\<open>scrollLock\<close> and then closed, after the timer (and any number of further timer turns)
  the close promise and the open promise are still pending and the body is still locked.
\<close>

theorem close_without_transition_stalls:
  "let (p, w1) = prepareModal (Some ''box'') (Some (showContent (CStr ''hi'')))
                   \<lparr>optClose = None, optScrollLock = Some True\<rparr> page0;
       c = \<lparr>cSettings = \<lparr>closeMode = ''overlay'', scrollLock = True\<rparr>, cResolve = p\<rparr>;
       (q, w2) = closeModal c w1
   in ''active'' \<in> set (mClasses w1) \<and> ''active'' \<notin> set (mClasses w2)
      \<and> timers w2 = [(400, FallbackTimeout)] \<and> mListeners w2 = [(c, q)]
      \<and> (\<forall>n. let w3 = run (replicate (Suc n) Tick) w2
               in now w3 = 400 \<and> timers w3 = []
                  \<and> promises w3 ! q = Pending [] \<and> promises w3 ! p = Pending []
                  \<and> ''locked'' \<in> set (bodyClasses w3) \<and> bodyTop w3 = TopMinusPx 120
                  \<and> mListeners w3 = [(c, q)])"
proof -
  let ?c = "\<lparr>cSettings = \<lparr>closeMode = ''overlay'', scrollLock = True\<rparr>, cResolve = 0\<rparr>"
  define w1 where "w1 = snd (prepareModal (Some ''box'') (Some (showContent (CStr ''hi'')))
                   \<lparr>optClose = None, optScrollLock = Some True\<rparr> page0)"
  define w2 where "w2 = snd (closeModal ?c w1)"
  define w3 where "w3 = fire Tick w2"
  have "fst (prepareModal (Some ''box'') (Some (showContent (CStr ''hi'')))
                   \<lparr>optClose = None, optScrollLock = Some True\<rparr> page0) = 0"
    by code_simp
  then have p: "prepareModal (Some ''box'') (Some (showContent (CStr ''hi'')))
                   \<lparr>optClose = None, optScrollLock = Some True\<rparr> page0 = (0, w1)"
    by (simp add: prod_eq_iff w1_def)
  have "fst (closeModal ?c w1) = 1"
    unfolding w1_def by code_simp
  then have q: "closeModal ?c w1 = (1, w2)"
    by (simp add: prod_eq_iff w2_def)
  have a: "''active'' \<in> set (mClasses w1)" "''active'' \<notin> set (mClasses w2)"
    "timers w2 = [(400, FallbackTimeout)]" "mListeners w2 = [(?c, 1)]"
    unfolding w2_def w1_def by code_simp+
  have t: "timers w3 = []"
    unfolding w3_def w2_def w1_def by code_simp
  have b: "now w3 = 400" "promises w3 ! 1 = Pending []" "promises w3 ! 0 = Pending []"
    "''locked'' \<in> set (bodyClasses w3)" "bodyTop w3 = TopMinusPx 120"
    "mListeners w3 = [(?c, 1)]"
    unfolding w3_def w2_def w1_def by code_simp+
  have r: "run (replicate (Suc n) Tick) w2 = w3" for n
    using ticks_idle [OF t] by (simp del: fire.simps add: w3_def)
  show ?thesis
    unfolding p
    by (simp add: q r a b [unfolded One_nat_def] t Let_def
        del: fire.simps replicate.simps run.simps)
qed

text \<open>
  C4, amended. Without the dialog region, initialisation logs one error and installs the
  fallback object. Its \<^verbatim>\<open>success\<close> and \<^verbatim>\<open>fail\<close> log their message and return a fulfilled
  promise; \<^verbatim>\<open>confirm\<close> (fulfilled with \<^verbatim>\<open>true\<close>), \<^verbatim>\<open>notif\<close> and \<^verbatim>\<open>custom\<close> return a fulfilled
  promise without logging and without running a setup function. None of the five raises
  or touches anything but the console and the promise store.
\<close>

theorem fallback_surface:
  assumes "\<not> modalFound w"
  shows "fst (init w) = Fallback
    \<and> snd (init w) =
        w\<lparr>console := console w @
             [(LogError, [LStr (''ERROR: <div id='' @ [CHR 0x22] @ ''modal'' @ [CHR 0x22]
                                 @ ''> not found in Layout.'')])]\<rparr>
    \<and> callModal_success (fst (init w)) m d v =
        (Returns (RetPromise (length (promises v))),
         v\<lparr>console := console v @ [(LogInfo, [LStr ''Success:'', LMsg m])],
           promises := promises v @ [Fulfilled VUndefined]\<rparr>)
    \<and> callModal_fail (fst (init w)) m d v =
        (Returns (RetPromise (length (promises v))),
         v\<lparr>console := console v @ [(LogError, [LStr ''Fail:'', LMsg m])],
           promises := promises v @ [Fulfilled VUndefined]\<rparr>)
    \<and> callModal_confirm (fst (init w)) txt v =
        (Returns (RetPromise (length (promises v))),
         v\<lparr>promises := promises v @ [Fulfilled (VBool True)]\<rparr>)
    \<and> callModal_notif (fst (init w)) cont cn d v =
        (Returns (RetPromise (length (promises v))),
         v\<lparr>promises := promises v @ [Fulfilled VUndefined]\<rparr>)
    \<and> callModal_custom (fst (init w)) cn sf opts v =
        (Returns (RetPromise (length (promises v))),
         v\<lparr>promises := promises v @ [Fulfilled VUndefined]\<rparr>)"
proof -
  have i: "fst (init w) = Fallback"
    using assms by (simp add: init_def)
  show ?thesis
    using assms
    by (simp add: i init_def consoleError_def consoleLog_def callModal_success_def
        callModal_fail_def callModal_confirm_def callModal_notif_def callModal_custom_def
        fb_success_def fb_fail_def fb_confirm_def fb_notif_def fb_custom_def
        promiseResolve_def)
qed

text \<open>
  C4, as stated, fails: the fallback \<^verbatim>\<open>confirm\<close>, \<^verbatim>\<open>notif\<close> and \<^verbatim>\<open>custom\<close> log nothing.
\<close>

theorem fallback_surface_counterexample:
  "fst (init pageNoModal) = Fallback
   \<and> console (snd (callModal_confirm Fallback ''sure?'' (snd (init pageNoModal))))
       = console (snd (init pageNoModal))
   \<and> console (snd (callModal_notif Fallback (CStr ''hello'') (Some ''info'') None
                      (snd (init pageNoModal))))
       = console (snd (init pageNoModal))
   \<and> console (snd (callModal_custom Fallback (Some ''box'') None
                      \<lparr>optClose = None, optScrollLock = None\<rparr> (snd (init pageNoModal))))
       = console (snd (init pageNoModal))"
  by (simp add: pageNoModal_def page0_def init_def callModal_confirm_def callModal_notif_def
      callModal_custom_def fb_confirm_def fb_notif_def fb_custom_def promiseResolve_def
      consoleError_def)

theorem fallback_surface_witness:
  "\<not> modalFound pageNoModal
   \<and> fst (init pageNoModal) = Fallback
   \<and> console (snd (init pageNoModal)) =
       [(LogError, [LStr (''ERROR: <div id='' @ [CHR 0x22] @ ''modal'' @ [CHR 0x22]
                           @ ''> not found in Layout.'')])]
   \<and> callModal_fail (fst (init pageNoModal)) (MStr ''no'') None pageNoModal =
       (Returns (RetPromise 0),
        pageNoModal\<lparr>console := [(LogError, [LStr ''Fail:'', LMsg (MStr ''no'')])],
                     promises := [Fulfilled VUndefined]\<rparr>)
   \<and> callModal_confirm (fst (init pageNoModal)) ''sure?'' pageNoModal =
       (Returns (RetPromise 0), pageNoModal\<lparr>promises := [Fulfilled (VBool True)]\<rparr>)"
proof -
  have h: "\<not> modalFound pageNoModal" by (simp add: pageNoModal_def page0_def)
  have c: "console pageNoModal = []" "promises pageNoModal = []"
    by (simp_all add: pageNoModal_def page0_def)
  show ?thesis
    using fallback_surface [OF h, of "MStr ''no''" None pageNoModal "''sure?''" COther None None
        "\<lparr>optClose = None, optScrollLock = None\<rparr>"]
    by (auto simp: h c)
qed

section \<open>Modal controller: confirm\<close>

lemma bindFirstIn_innerText [simp]: "bindFirstIn cl h (innerText s) = None"
  by (simp add: innerText_def)

lemma boundKids_confirmBody: "boundKids c' [confirmBody txt c outer] = [confirmBody txt c outer]"
  by (simp add: boundKids_def confirmBody_def createElement_def Let_def)

lemma confirm_found:
  assumes "contentFound w"
  shows "confirmModal txt w =
    (length (promises w),
     w\<lparr>mClasses := [''choice'', ''active''],
       mOnclick := Some (OverlayClick (confirmCtx w)),
       mKids := [confirmBody txt (confirmCtx w) (length (promises w))],
       promises := promises w @ [Pending [], Pending [CatchReject (length (promises w))]]\<rparr>)"
  using assms
  by (simp add: confirmModal_def prepareModal_def newPromise_def executor_def resetClasses_def
      classListAdd_def addTokens_def addToken_def asciiWhitespace_def assignSettings_def
      bindClose_def showModal_found shownKids_def boundKids_confirmBody confirmCtx_def
      subscribe_def nth_append list_update_append Let_def)

lemma set_jobsFor: "job \<in> set (jobsFor st rs) \<Longrightarrow> fst job \<in> set rs"
  by (auto simp: jobsFor_def)

lemma apart_settle:
  assumes a: "apart n news w" and p: "p < n" and st: "reactionsOf st = []"
  shows "apart n news (settle p st w)"
proof -
  from a obtain olds where o: "promises w = olds @ news" "length olds = n"
    "\<forall>s \<in> set olds. \<forall>r \<in> set (reactionsOf s). target r < n"
    "\<forall>job \<in> set (microtasks w). target (fst job) < n"
    by (auto simp: apart_def)
  have pl: "p < length (promises w)" using o p by simp
  have pn: "promises w ! p = olds ! p" using o p by (simp add: nth_append)
  show ?thesis
  proof (cases "olds ! p")
    case (Pending rs)
    have rs: "\<forall>r \<in> set rs. target r < n"
      using o(2,3) p Pending by (metis nth_mem reactionsOf.simps(1))
    have e: "settle p st w =
        w\<lparr>promises := olds[p := st] @ news, microtasks := microtasks w @ jobsFor st rs\<rparr>"
      using pl pn Pending o p by (simp add: settle_def list_update_append)
    have "\<forall>s \<in> set (olds[p := st]). \<forall>r \<in> set (reactionsOf s). target r < n"
    proof
      fix s assume "s \<in> set (olds[p := st])"
      then have "s = st \<or> s \<in> set olds"
        using set_update_subset_insert [of olds p st] by auto
      then show "\<forall>r \<in> set (reactionsOf s). target r < n"
        using o(3) st by auto
    qed
    moreover have "\<forall>job \<in> set (microtasks w @ jobsFor st rs). target (fst job) < n"
      using o(4) rs set_jobsFor by fastforce
    ultimately show ?thesis
      unfolding apart_def e using o(2) by (intro exI [of _ "olds[p := st]"]) simp
  next
    case (Fulfilled v)
    then have "settle p st w = w" using pl pn by (simp add: settle_def)
    then show ?thesis using a by simp
  next
    case (Rejected v)
    then have "settle p st w = w" using pl pn by (simp add: settle_def)
    then show ?thesis using a by simp
  qed
qed

lemma apart_runReaction:
  assumes "apart n news w" and "target r < n"
  shows "apart n news (runReaction r v w)"
  using assms by (cases r) (simp_all add: resolveP_def rejectP_def apart_settle)

lemma apart_pop:
  assumes "apart n news w" and "microtasks w = job # jobs"
  shows "apart n news (w\<lparr>microtasks := jobs\<rparr>)" and "target (fst job) < n"
  using assms by (auto simp: apart_def)

lemma apart_drain: "apart n news w \<Longrightarrow> apart n news (drain w)"
proof (induction w rule: drain.induct)
  case (1 w)
  show ?case
  proof (cases "microtasks w")
    case Nil
    then show ?thesis using "1.prems" by (simp add: drain_Nil)
  next
    case (Cons job jobs)
    have "apart n news (runReaction (fst job) (snd job) (w\<lparr>microtasks := jobs\<rparr>))"
      using apart_pop [OF "1.prems" Cons] by (rule apart_runReaction)
    then have "apart n news (drain (runReaction (fst job) (snd job) (w\<lparr>microtasks := jobs\<rparr>)))"
      by (rule "1.IH" [OF Cons])
    then show ?thesis by (simp add: drain_Cons [OF Cons])
  qed
qed

lemma microtasks_drain: "microtasks (drain w) = []"
proof (induction w rule: drain.induct)
  case (1 w)
  show ?case
  proof (cases "microtasks w")
    case Nil
    then show ?thesis by (simp add: drain_Nil)
  next
    case (Cons job jobs)
    then show ?thesis using "1.IH" [OF Cons] by (simp add: drain_Cons [OF Cons])
  qed
qed

lemma apart_unlock: "apart n news (unlock w) = apart n news w"
  by (simp add: apart_def unlock_def)

lemma apart_onTransitionEnd:
  assumes "apart n news w" and "snd l < n" and "cResolve (fst l) < n"
  shows "apart n news (onTransitionEnd l w)"
  using assms
  by (simp add: onTransitionEnd_def Let_def resolveP_def apart_settle apart_unlock)

lemma apart_listeners:
  assumes "apart n news w" and "\<forall>l \<in> set ls. snd l < n \<and> cResolve (fst l) < n"
  shows "apart n news (foldl (\<lambda>a l. drain (onTransitionEnd l a)) w ls)"
  using assms
proof (induction ls arbitrary: w)
  case Nil
  then show ?case by simp
next
  case (Cons l ls)
  have "apart n news (drain (onTransitionEnd l w))"
    using Cons.prems by (intro apart_drain apart_onTransitionEnd) simp_all
  then show ?case using Cons by simp
qed

lemma microtasks_listeners:
  assumes "microtasks w = []"
  shows "microtasks (foldl (\<lambda>a l. drain (onTransitionEnd l a)) w ls) = []"
  using assms by (induction ls arbitrary: w) (simp_all add: microtasks_drain)

lemma apart_cong:
  "promises a = promises b \<Longrightarrow> microtasks a = microtasks b \<Longrightarrow> apart n news a = apart n news b"
  by (simp add: apart_def)

lemma apart_fresh:
  assumes "wellFormed w" and "promises v = promises w @ news" and "microtasks v = microtasks w"
  shows "apart (length (promises w)) news v"
  using assms
  by (auto simp: wellFormed_def apart_def list_all_iff)

lemma close_transition_answers:
  assumes ps: "promises x = olds @ [Pending [], Pending [CatchReject (length olds)], Pending [r]]"
    and q: "microtasks x = []"
    and c: "cResolve c = Suc (length olds)" "\<not> scrollLock (cSettings c)"
    and r: "r = ThenResolve (length olds) \<or> r = ThenReject (length olds)"
  shows "promises (drain (onTransitionEnd (c, Suc (Suc (length olds))) x)) =
           olds @ [answered r, Fulfilled VUndefined, Fulfilled VUndefined]"
proof -
  let ?n = "length olds"
  let ?x1 = "x\<lparr>promises := olds @ [Pending [], Fulfilled VUndefined, Fulfilled VUndefined],
               microtasks := [(r, VUndefined)]\<rparr>"
  have e1: "onTransitionEnd (c, Suc (Suc ?n)) x = ?x1"
    using r
    by (auto simp: onTransitionEnd_def Let_def resolveP_def settle_def jobsFor_def ps q c
        nth_append list_update_append)
  let ?x2 = "x\<lparr>promises := olds @ [Pending [], Fulfilled VUndefined, Fulfilled VUndefined],
               microtasks := []\<rparr>"
  have e2: "drain ?x1 = drain (runReaction r VUndefined ?x2)"
    using drain_Cons [of ?x1 "(r, VUndefined)" "[]"] by simp
  have e3: "runReaction r VUndefined ?x2 =
      x\<lparr>promises := olds @ [answered r, Fulfilled VUndefined, Fulfilled VUndefined],
        microtasks := []\<rparr>"
    using r
    by (auto simp: resolveP_def rejectP_def settle_def jobsFor_def answered_def
        nth_append list_update_append)
  show ?thesis
    by (simp add: e1 e2 e3 drain_Nil)
qed

lemma bubble_confirm:
  "bubble [0, Suc 0, 0] [confirmBody txt c outer] = Some ([ConfirmYes c outer], [])"
  "bubble [0, Suc 0, Suc 0] [confirmBody txt c outer] = Some ([ConfirmNo c outer], [])"
  by (simp_all add: confirmBody_def createElement_def Let_def)

lemma modalClick_inside:
  assumes "mOnclick v = Some (OverlayClick c)" and "tid \<noteq> ''closeModal''"
  shows "modalClick False tid v = drain v"
  using assms by (simp add: modalClick_def)

lemma click_answer:
  assumes f: "contentFound w"
  shows "fire (ClickInside 0 [1, 0]) (snd (confirmModal txt w))
           = drain (clicked w txt (ThenResolve (length (promises w))))"
    and "fire (ClickInside 0 [1, 1]) (snd (confirmModal txt w))
           = drain (clicked w txt (ThenReject (length (promises w))))"
proof -
  let ?n = "length (promises w)"
  let ?w1 = "snd (confirmModal txt w)"
  have k: "mKids ?w1 = [confirmBody txt (confirmCtx w) ?n]"
    by (simp add: confirm_found [OF f])
  have y: "runClick (ConfirmYes (confirmCtx w) ?n) False [] ?w1 = clicked w txt (ThenResolve ?n)"
    by (simp add: confirm_found [OF f] closeModal_def newPromise_def setTimeout_def
        removeToken_def subscribe_def clicked_def nth_append list_update_append Let_def)
  have n: "runClick (ConfirmNo (confirmCtx w) ?n) False [] ?w1 = clicked w txt (ThenReject ?n)"
    by (simp add: confirm_found [OF f] closeModal_def newPromise_def setTimeout_def
        removeToken_def subscribe_def clicked_def nth_append list_update_append Let_def)
  have o: "mOnclick (drain (clicked w txt r)) = Some (OverlayClick (confirmCtx w))" for r
  proof -
    have "mOnclick (drain (clicked w txt r)) = mOnclick (clicked w txt r)"
      using page_drain by (rule page_fields)
    then show ?thesis by (simp add: clicked_def)
  qed
  have d: "drain (drain v) = drain v" for v
    by (simp add: drain_Nil microtasks_drain)
  show "fire (ClickInside 0 [1, 0]) ?w1 = drain (clicked w txt (ThenResolve ?n))"
    by (simp add: k bubble_confirm y modalClick_inside [OF o] d del: bubble.simps runClick.simps)
  show "fire (ClickInside 0 [1, 1]) ?w1 = drain (clicked w txt (ThenReject ?n))"
    by (simp add: k bubble_confirm n modalClick_inside [OF o] d del: bubble.simps runClick.simps)
qed

lemma answer_delivered:
  assumes f: "contentFound w" and wf: "wellFormed w"
    and r: "r = ThenResolve (length (promises w)) \<or> r = ThenReject (length (promises w))"
  shows "promises (drain (clicked w txt r)) ! length (promises w) = Pending []"
    and "mClasses (drain (clicked w txt r)) = [''choice'']"
    and "promises (fire TransitionEnd (drain (clicked w txt r))) ! length (promises w) = answered r"
proof -
  let ?n = "length (promises w)"
  let ?news = "[Pending [], Pending [CatchReject ?n], Pending [r]]"
  let ?y = "drain (clicked w txt r)"
  let ?step = "\<lambda>a l. drain (onTransitionEnd l a)"
  have "apart ?n ?news (clicked w txt r)"
    using wf by (rule apart_fresh) (simp_all add: clicked_def)
  then have ay: "apart ?n ?news ?y" by (rule apart_drain)
  then obtain olds1 where "promises ?y = olds1 @ ?news" "length olds1 = ?n"
    by (auto simp: apart_def)
  then show "promises ?y ! ?n = Pending []"
    by (simp add: nth_append)
  have "mClasses ?y = mClasses (clicked w txt r)"
    using page_drain by (rule page_fields)
  then show "mClasses ?y = [''choice'']" by (simp add: clicked_def)
  have "mListeners ?y = mListeners (clicked w txt r)"
    using page_drain by (rule page_fields)
  then have ls: "mListeners ?y = mListeners w @ [(confirmCtx w, Suc (Suc ?n))]"
    by (simp add: clicked_def)
  let ?x = "foldl ?step (?y\<lparr>mListeners := []\<rparr>) (mListeners w)"
  have fe: "fire TransitionEnd ?y = drain (onTransitionEnd (confirmCtx w, Suc (Suc ?n)) ?x)"
    by (simp add: ls)
  have "apart ?n ?news (?y\<lparr>mListeners := []\<rparr>)"
    using ay apart_cong [of "?y\<lparr>mListeners := []\<rparr>" ?y] by simp
  moreover have "\<forall>l \<in> set (mListeners w). snd l < ?n \<and> cResolve (fst l) < ?n"
    using wf by (simp add: wellFormed_def list_all_iff)
  ultimately have "apart ?n ?news ?x" by (rule apart_listeners)
  then obtain olds where o: "promises ?x = olds @ ?news" "length olds = ?n"
    by (auto simp: apart_def)
  have q: "microtasks ?x = []"
    by (rule microtasks_listeners) (simp add: microtasks_drain)
  have "promises (drain (onTransitionEnd (confirmCtx w, Suc (Suc (length olds))) ?x)) =
        olds @ [answered r, Fulfilled VUndefined, Fulfilled VUndefined]"
    using o q r by (intro close_transition_answers) (simp_all add: confirmCtx_def)
  then have "promises (drain (onTransitionEnd (confirmCtx w, Suc (Suc ?n)) ?x)) ! ?n = answered r"
    using o(2) by (simp add: nth_append)
  then show "promises (fire TransitionEnd ?y) ! ?n = answered r"
    by (simp only: fe)
qed

text \<open>
  What the buttons do when the close transition ends. On a well-formed page with the
  content container, after \<^verbatim>\<open>confirm\<close> the result is pending and the dialog visible. A click
  on the affirmative button removes \<^verbatim>\<open>active\<close> while the result is still pending, and the
  end of the close transition fulfils it; a click on the negative button does the same
  and the end of the transition rejects it.
\<close>

lemma confirm_after_transition:
  assumes "contentFound w" and "wellFormed w"
  shows "let (outer, w1) = confirmModal txt w;
             yes = fire (ClickInside 0 [1, 0]) w1;
             no = fire (ClickInside 0 [1, 1]) w1
         in promises w1 ! outer = Pending [] \<and> ''active'' \<in> set (mClasses w1)
            \<and> promises yes ! outer = Pending [] \<and> ''active'' \<notin> set (mClasses yes)
            \<and> promises (fire TransitionEnd yes) ! outer = Fulfilled VUndefined
            \<and> ''active'' \<notin> set (mClasses (fire TransitionEnd yes))
            \<and> promises no ! outer = Pending [] \<and> ''active'' \<notin> set (mClasses no)
            \<and> promises (fire TransitionEnd no) ! outer = Rejected VUndefined
            \<and> ''active'' \<notin> set (mClasses (fire TransitionEnd no))"
proof -
  let ?n = "length (promises w)"
  define w1 where "w1 = snd (confirmModal txt w)"
  have c: "confirmModal txt w = (?n, w1)"
    by (simp add: w1_def confirm_found [OF assms(1)])
  have s: "promises w1 ! ?n = Pending []" "''active'' \<in> set (mClasses w1)"
    by (simp_all add: w1_def confirm_found [OF assms(1)] nth_append)
  have y: "fire (ClickInside 0 [1, 0]) w1 = drain (clicked w txt (ThenResolve ?n))"
    and n: "fire (ClickInside 0 [1, 1]) w1 = drain (clicked w txt (ThenReject ?n))"
    unfolding w1_def by (simp_all only: click_answer [OF assms(1)])
  have ay: "answered (ThenResolve ?n) = Fulfilled VUndefined"
    and an: "answered (ThenReject ?n) = Rejected VUndefined"
    by (simp_all add: answered_def)
  let ?yes = "drain (clicked w txt (ThenResolve ?n))"
  let ?no = "drain (clicked w txt (ThenReject ?n))"
  have dy: "promises ?yes ! ?n = Pending []" "mClasses ?yes = [''choice'']"
    "promises (fire TransitionEnd ?yes) ! ?n = Fulfilled VUndefined"
    using answer_delivered [OF assms, of "ThenResolve ?n" "txt"]
    by (simp_all add: ay del: fire.simps)
  have dn: "promises ?no ! ?n = Pending []" "mClasses ?no = [''choice'']"
    "promises (fire TransitionEnd ?no) ! ?n = Rejected VUndefined"
    using answer_delivered [OF assms, of "ThenReject ?n" "txt"]
    by (simp_all add: an del: fire.simps)
  show ?thesis
    unfolding c
    by (simp add: Let_def y [unfolded One_nat_def] n [unfolded One_nat_def]
        mClasses_TransitionEnd s dy dn del: fire.simps)
qed

text \<open>
  C5. Activating the affirmative button is meant to complete the result of \<^verbatim>\<open>confirm\<close>
  affirmatively, the negative button negatively, with the dialog closed first. The
  buttons wait for the promise of \<^verbatim>\<open>closeModal\<close>, which only the \<^verbatim>\<open>transitionend\<close> listener
  resolves, since the fallback timer has an empty body. On a page where no
  \<^verbatim>\<open>transitionend\<close> event arrives, after the click on either button the dialog is closed
  and the close is still waiting, and after any number of timer turns the result is
  still pending: it is never delivered.
\<close>

theorem confirm_without_transition_unanswered:
  "let (outer, w1) = confirmModal ''sure?'' page0;
       yes = fire (ClickInside 0 [1, 0]) w1;
       no = fire (ClickInside 0 [1, 1]) w1
   in promises w1 ! outer = Pending [] \<and> ''active'' \<in> set (mClasses w1)
      \<and> ''active'' \<notin> set (mClasses yes) \<and> length (mListeners yes) = 1
      \<and> ''active'' \<notin> set (mClasses no) \<and> length (mListeners no) = 1
      \<and> (\<forall>n. promises (run (replicate n Tick) yes) ! outer = Pending []
               \<and> promises (run (replicate n Tick) no) ! outer = Pending [])"
proof -
  define w1 where "w1 = snd (confirmModal ''sure?'' page0)"
  define yes where "yes = fire (ClickInside 0 [1, 0]) w1"
  define no where "no = fire (ClickInside 0 [1, 1]) w1"
  have "fst (confirmModal ''sure?'' page0) = 0" by code_simp
  then have c: "confirmModal ''sure?'' page0 = (0, w1)"
    by (simp add: prod_eq_iff w1_def)
  have a: "promises w1 ! 0 = Pending []" "''active'' \<in> set (mClasses w1)"
    unfolding w1_def by code_simp+
  have y: "''active'' \<notin> set (mClasses yes)" "length (mListeners yes) = 1"
    "promises yes ! 0 = Pending []" "promises (fire Tick yes) ! 0 = Pending []"
    "timers (fire Tick yes) = []"
    unfolding yes_def w1_def by code_simp+
  have n: "''active'' \<notin> set (mClasses no)" "length (mListeners no) = 1"
    "promises no ! 0 = Pending []" "promises (fire Tick no) ! 0 = Pending []"
    "timers (fire Tick no) = []"
    unfolding no_def w1_def by code_simp+
  have ry: "promises (run (replicate k Tick) yes) ! 0 = Pending []" for k
  proof (cases k)
    case 0
    then show ?thesis by (simp add: y)
  next
    case (Suc m)
    then show ?thesis
      using ticks_idle [OF y(5), of m] by (simp add: y del: fire.simps)
  qed
  have rn: "promises (run (replicate k Tick) no) ! 0 = Pending []" for k
  proof (cases k)
    case 0
    then show ?thesis by (simp add: n)
  next
    case (Suc m)
    then show ?thesis
      using ticks_idle [OF n(5), of m] by (simp add: n del: fire.simps)
  qed
  show ?thesis
    unfolding c Let_def prod.case yes_def [symmetric] no_def [symmetric]
    using a y n ry rn by simp
qed

end
